theory Spec2Isabelle
  imports Main
begin

section \<open>Python strings and the built-ins the connector calls\<close>

text \<open>
  A Python \<open>str\<close> is modelled as a \<open>string\<close> whose characters are the code points
  below 256. The connector calls \<open>str.strip\<close>, \<open>str.lower\<close>, \<open>int\<close> and \<open>str\<close> (inside
  f-strings); each is written out for that range of characters.
\<close>

definition is_space :: "char \<Rightarrow> bool" where
  "is_space c = ((of_char c :: nat) \<in> set [9, 10, 11, 12, 13, 28, 29, 30, 31, 32, 133, 160])"

definition py_strip :: "string \<Rightarrow> string" where
  "py_strip s = rev (dropWhile is_space (rev (dropWhile is_space s)))"

definition lower_char :: "char \<Rightarrow> char" where
  "lower_char c =
     (let n = (of_char c :: nat)
      in if (65 \<le> n \<and> n \<le> 90) \<or> (192 \<le> n \<and> n \<le> 222 \<and> n \<noteq> 215)
         then char_of (n + 32) else c)"

definition py_lower :: "string \<Rightarrow> string" where
  "py_lower s = map lower_char s"

text \<open>
  \<open>int(s)\<close> in base 10, as CPython's \<open>PyLong_FromString\<close> reads a \<open>str\<close>:
  whitespace is skipped at both ends, one sign is allowed, and the digits may be
  grouped by single underscores. \<open>None\<close> stands for the \<open>ValueError\<close> that \<open>int\<close>
  raises on anything else. The whitespace \<open>int\<close> skips is narrower than that of
  \<open>str.strip\<close>: below 256 it is the six ASCII characters and the two code points
  U+0085 and U+00A0, but not U+001C to U+001F. A literal whose number of digits
  exceeds both 640 and the interpreter's \<open>sys.int_max_str_digits\<close> (4300 unless
  configured, 0 for no limit, as on interpreters older than the limit) is refused too.
\<close>

definition is_digit :: "char \<Rightarrow> bool" where
  "is_digit c = (48 \<le> (of_char c :: nat) \<and> (of_char c :: nat) \<le> 57)"

definition digit_val :: "char \<Rightarrow> int" where
  "digit_val c = int (of_char c) - 48"

definition int_space :: "char \<Rightarrow> bool" where
  "int_space c = ((of_char c :: nat) \<in> set [9, 10, 11, 12, 13, 32, 133, 160])"

definition int_strip :: "string \<Rightarrow> string" where
  "int_strip s = rev (dropWhile int_space (rev (dropWhile int_space s)))"

definition digits_allowed :: "nat \<Rightarrow> nat \<Rightarrow> bool" where
  "digits_allowed max_str_digits n \<longleftrightarrow>
     \<not> (640 < n \<and> 0 < max_str_digits \<and> max_str_digits < n)"

fun parse_digits :: "int \<Rightarrow> string \<Rightarrow> int option" where
  "parse_digits acc [] = Some acc"
| "parse_digits acc (c # cs) =
     (if is_digit c then parse_digits (acc * 10 + digit_val c) cs
      else if c = CHR ''_'' then
        (case cs of
           [] \<Rightarrow> None
         | d # ds \<Rightarrow> if is_digit d then parse_digits (acc * 10 + digit_val d) ds else None)
      else None)"

definition parse_unsigned :: "nat \<Rightarrow> string \<Rightarrow> int option" where
  "parse_unsigned max_str_digits s =
     (case s of
        [] \<Rightarrow> None
      | c # cs \<Rightarrow>
          if is_digit c \<and> digits_allowed max_str_digits (length (filter is_digit s))
          then parse_digits (digit_val c) cs else None)"

definition py_int :: "nat \<Rightarrow> string \<Rightarrow> int option" where
  "py_int max_str_digits s =
     (case int_strip s of
        [] \<Rightarrow> None
      | c # cs \<Rightarrow>
          if c = CHR ''-'' then map_option uminus (parse_unsigned max_str_digits cs)
          else if c = CHR ''+'' then parse_unsigned max_str_digits cs
          else parse_unsigned max_str_digits (c # cs))"

text \<open>\<open>str(n)\<close> for a natural number, as the f-strings print it.\<close>

fun str_nat :: "nat \<Rightarrow> string" where
  "str_nat n =
     (if n < 10 then [char_of (48 + n)]
      else str_nat (n div 10) @ [char_of (48 + n mod 10)])"

declare str_nat.simps [simp del]

section \<open>Exceptions, events and the environment\<close>

text \<open>
  Every exception of the model is an instance of \<open>Exception\<close>; the class decides
  which \<open>except\<close> clause takes it, the message is what \<open>str(e)\<close> prints.
  \<open>PyodbcError\<close> is \<open>pyodbc.Error\<close> with its subclasses. Exceptions outside
  \<open>Exception\<close>, such as \<open>KeyboardInterrupt\<close>, are not modelled.
\<close>

datatype exn_class =
  PyodbcError | RuntimeError | ValueError | EOFError | ImportError | OtherException

datatype exn = Exn exn_class string

fun exn_cls :: "exn \<Rightarrow> exn_class" where
  "exn_cls (Exn c m) = c"

fun str_exn :: "exn \<Rightarrow> string" where
  "str_exn (Exn c m) = m"

type_synonym conn = nat
type_synonym cursor = nat

datatype level = DEBUG | INFO | ERROR

text \<open>
  What the connector does to the outside world, in the order it does it: lines
  printed, lines read (\<open>None\<close> is end of file), log records, and calls into the
  driver and into pandas.
\<close>

datatype event =
    Print string
  | Input string "string option"
  | GetPass string "string option"
  | Log level string
  | DataSources
  | DrvConnect string
  | ConnCursor conn
  | CursorClose cursor
  | ConnClose conn
  | ReadSql string conn

text \<open>
  The world is the lines the user still has to type and the events so far.
  \<open>input\<close> and \<open>getpass.getpass\<close> both read the next of these lines and raise
  \<open>EOFError\<close> when none is left.
\<close>

record world =
  stdin :: "string list"
  trace :: "event list"

definition emit :: "event \<Rightarrow> world \<Rightarrow> world" where
  "emit e w = w\<lparr>trace := trace w @ [e]\<rparr>"

definition py_print :: "string \<Rightarrow> world \<Rightarrow> world" where
  "py_print s w = emit (Print s) w"

definition logger :: "level \<Rightarrow> string \<Rightarrow> world \<Rightarrow> world" where
  "logger l s w = emit (Log l s) w"

definition py_input :: "string \<Rightarrow> world \<Rightarrow> (exn + string) \<times> world" where
  "py_input prompt w =
     (case stdin w of
        [] \<Rightarrow> (Inl (Exn EOFError ''EOF when reading a line''), emit (Input prompt None) w)
      | l # ls \<Rightarrow> (Inr l, emit (Input prompt (Some l)) (w\<lparr>stdin := ls\<rparr>)))"

definition getpass :: "string \<Rightarrow> world \<Rightarrow> (exn + string) \<times> world" where
  "getpass prompt w =
     (case stdin w of
        [] \<Rightarrow> (Inl (Exn EOFError ''''), emit (GetPass prompt None) w)
      | l # ls \<Rightarrow> (Inr l, emit (GetPass prompt (Some l)) (w\<lparr>stdin := ls\<rparr>)))"

text \<open>
  The driver and pandas are opaque: what a call returns may depend on everything
  that happened before it. \<open>pandas = None\<close> is an interpreter without the pandas
  module, where \<open>import pandas\<close> raises. \<open>int_max_str_digits\<close> is the
  interpreter's setting of that name.
\<close>

record 't env =
  int_max_str_digits :: nat
  data_sources :: "event list \<Rightarrow> exn + (string \<times> string) list"
  drv_connect :: "event list \<Rightarrow> string \<Rightarrow> exn + conn"
  conn_cursor :: "event list \<Rightarrow> conn \<Rightarrow> exn + cursor"
  cursor_close :: "event list \<Rightarrow> cursor \<Rightarrow> exn option"
  conn_close :: "event list \<Rightarrow> conn \<Rightarrow> exn option"
  pandas :: "(event list \<Rightarrow> string \<Rightarrow> conn \<Rightarrow> exn + 't) option"

section \<open>DatabaseConnector\<close>

record connector =
  dsn :: string
  username :: string
  password :: string
  conn :: "conn option"
  cursor :: "cursor option"

subsection \<open>\<open>_select_dsn\<close>\<close>

fun print_dsns :: "nat \<Rightarrow> (string \<times> string) list \<Rightarrow> world \<Rightarrow> world" where
  "print_dsns i [] w = w"
| "print_dsns i ((name, driver) # rest) w =
     print_dsns (i + 1) rest
       (py_print (''['' @ str_nat i @ ''] '' @ name @ ''  ('' @ driver @ '')'') w)"

text \<open>
  The \<open>while True\<close> loop. Each round reads one line, so the loop is a recursion over
  the lines left; at end of file \<open>input\<close> raises \<open>EOFError\<close>, which the
  \<open>except ValueError\<close> clause does not take.
\<close>

function select_loop ::
  "nat \<Rightarrow> (string \<times> string) list \<Rightarrow> world \<Rightarrow> (exn + string) \<times> world" where
  "select_loop max_str_digits dsn_list w =
     (case py_input ''Select a DSN by number: '' w of
        (Inl e, w1) \<Rightarrow> (Inl e, w1)
      | (Inr line, w1) \<Rightarrow>
          (case py_int max_str_digits line of
             None \<Rightarrow>
               select_loop max_str_digits dsn_list
                 (py_print ''Please enter a valid number.'' w1)
           | Some selection \<Rightarrow>
               if 0 \<le> selection \<and> selection < int (length dsn_list) then
                 (let selected = fst (dsn_list ! nat selection)
                  in (Inr selected, logger INFO (''User selected DSN: '' @ selected) w1))
               else select_loop max_str_digits dsn_list
                      (py_print ''Invalid selection. Try again.'' w1)))"
  by pat_completeness auto
termination
  by (relation "measure (\<lambda>(m, d, w). length (stdin w))")
     (auto simp: py_input_def py_print_def emit_def split: list.splits)

declare select_loop.simps [simp del]

definition select_dsn :: "'t env \<Rightarrow> world \<Rightarrow> (exn + string) \<times> world" where
  "select_dsn env w =
     (case data_sources env (trace w) of
        Inl e \<Rightarrow> (Inl e, emit DataSources w)
      | Inr dsn_list \<Rightarrow>
          (let w1 = emit DataSources w
           in if dsn_list = [] then
                (Inl (Exn RuntimeError ''No DSNs found on this system.''), w1)
              else select_loop (int_max_str_digits env) dsn_list
                     (print_dsns 0 dsn_list (py_print ''Available DSNs:'' w1))))"

subsection \<open>\<open>__init__\<close> and \<open>_prompt_credentials\<close>\<close>

text \<open>\<open>x or f()\<close> takes \<open>x\<close> unless it is \<open>None\<close> or the empty string.\<close>

definition init ::
  "'t env \<Rightarrow> string option \<Rightarrow> string option \<Rightarrow> string option \<Rightarrow> world
     \<Rightarrow> (exn + connector) \<times> world" where
  "init env dsn_arg username_arg password_arg w =
     (case (case dsn_arg of
              None \<Rightarrow> select_dsn env w
            | Some d \<Rightarrow> if d = [] then select_dsn env w else (Inr d, w)) of
        (Inl e, w1) \<Rightarrow> (Inl e, w1)
      | (Inr d, w1) \<Rightarrow>
          (case (case username_arg of
                   None \<Rightarrow> map_prod (map_sum id py_strip) id
                             (py_input ''Enter your database username: '' w1)
                 | Some u \<Rightarrow>
                     if u = [] then map_prod (map_sum id py_strip) id
                                      (py_input ''Enter your database username: '' w1)
                     else (Inr u, w1)) of
             (Inl e, w2) \<Rightarrow> (Inl e, w2)
           | (Inr u, w2) \<Rightarrow>
               (case (case password_arg of
                        None \<Rightarrow> getpass ''Enter your database password: '' w2
                      | Some p \<Rightarrow>
                          if p = [] then getpass ''Enter your database password: '' w2
                          else (Inr p, w2)) of
                  (Inl e, w3) \<Rightarrow> (Inl e, w3)
                | (Inr p, w3) \<Rightarrow>
                    (Inr \<lparr>dsn = d, username = u, password = p,
                          conn = None, cursor = None\<rparr>, w3))))"

definition prompt_credentials ::
  "bool \<Rightarrow> connector \<Rightarrow> world \<Rightarrow> (exn + unit) \<times> connector \<times> world" where
  "prompt_credentials prompt_username s w =
     (case (if prompt_username then
              (case py_input ''Enter your database username: '' w of
                 (Inl e, w1) \<Rightarrow> (Inl e, s, w1)
               | (Inr u, w1) \<Rightarrow> (Inr (), s\<lparr>username := py_strip u\<rparr>, w1))
            else (Inr (), s, w)) of
        (Inl e, s1, w1) \<Rightarrow> (Inl e, s1, w1)
      | (Inr _, s1, w1) \<Rightarrow>
          (case getpass ''Enter your database password: '' w1 of
             (Inl e, w2) \<Rightarrow> (Inl e, s1, w2)
           | (Inr p, w2) \<Rightarrow> (Inr (), s1\<lparr>password := p\<rparr>, w2)))"

subsection \<open>\<open>connect\<close>\<close>

text \<open>How one round of the \<open>while\<close> loop ends.\<close>

datatype 'a flow = Return 'a | Raise exn | Break | Continue

text \<open>The connection string of line 88.\<close>

definition conn_str :: "connector \<Rightarrow> string" where
  "conn_str s = ''DSN='' @ dsn s @ '';UID='' @ username s @ '';PWD='' @ password s"

text \<open>The debug record of lines 89 to 91.\<close>

definition debug_msg :: "nat \<Rightarrow> connector \<Rightarrow> string" where
  "debug_msg attempts s =
     ''Attempting connection (attempt '' @ str_nat attempts @ '') to DSN='' @ [CHR 39]
       @ dsn s @ [CHR 39] @ '' as user='' @ [CHR 39] @ username s @ [CHR 39]"

text \<open>
  The \<open>try\<close> block of a round (lines 87 to 95). \<open>self.conn\<close> is assigned before
  \<open>self.conn.cursor()\<close> is called, so an exception from the latter leaves it set.
\<close>

definition try_connect ::
  "'t env \<Rightarrow> nat \<Rightarrow> connector \<Rightarrow> world
     \<Rightarrow> (exn + conn option \<times> cursor option) \<times> connector \<times> world" where
  "try_connect env attempts s w =
     (let cs = conn_str s;
          w1 = logger DEBUG (debug_msg attempts s) w
      in case drv_connect env (trace w1) cs of
           Inl e \<Rightarrow> (Inl e, s, emit (DrvConnect cs) w1)
         | Inr c \<Rightarrow>
             (let s1 = s\<lparr>conn := Some c\<rparr>;
                  w2 = emit (DrvConnect cs) w1
              in case conn_cursor env (trace w2) c of
                   Inl e \<Rightarrow> (Inl e, s1, emit (ConnCursor c) w2)
                 | Inr cu \<Rightarrow>
                     (let s2 = s1\<lparr>cursor := Some cu\<rparr>;
                          w3 = logger INFO
                                 (''Connected to DSN '' @ [CHR 39] @ dsn s2 @ [CHR 39]
                                    @ '' successfully on attempt '' @ str_nat attempts @ ''.'')
                                 (emit (ConnCursor c) w2)
                      in (Inr (conn s2, cursor s2), s2, w3))))"

text \<open>The two \<open>except\<close> clauses (lines 97 to 100).\<close>

definition log_failure :: "nat \<Rightarrow> exn \<Rightarrow> world \<Rightarrow> world" where
  "log_failure attempts e w =
     (if exn_cls e = PyodbcError
      then logger ERROR (''ODBC error on attempt '' @ str_nat attempts @ '': '' @ str_exn e) w
      else logger ERROR
             (''Unexpected error on attempt '' @ str_nat attempts @ '': '' @ str_exn e) w)"

text \<open>Lines 108 to 115: the offer to pick another DSN.\<close>

definition change_dsn ::
  "'t env \<Rightarrow> connector \<Rightarrow> world \<Rightarrow> (exn + unit) \<times> connector \<times> world" where
  "change_dsn env s w =
     (case py_input ''Change DSN as well? [y/N]: '' w of
        (Inl e, w1) \<Rightarrow> (Inl e, s, w1)
      | (Inr answer, w1) \<Rightarrow>
          if py_lower (py_strip answer) = ''y'' then
            (case select_dsn env w1 of
               (Inr d, w2) \<Rightarrow> (Inr (), s\<lparr>dsn := d\<rparr>, w2)
             | (Inl e, w2) \<Rightarrow>
                 (Inr (), s,
                  logger ERROR (''Unable to change DSN after failure: '' @ str_exn e)
                    (py_print (''Unable to change DSN: '' @ str_exn e) w2)))
          else (Inr (), s, w1))"

text \<open>Lines 102 to 118: what follows a failed attempt.\<close>

definition retry_prompts ::
  "'t env \<Rightarrow> bool \<Rightarrow> bool \<Rightarrow> connector \<Rightarrow> world \<Rightarrow> 'a flow \<times> connector \<times> world" where
  "retry_prompts env allow_change_dsn reprompt_username s w =
     (case py_input ''Retry? [Y/n]: '' (py_print (CHR 10 # ''Connection failed.'') w) of
        (Inl e, w1) \<Rightarrow> (Raise e, s, w1)
      | (Inr retry, w1) \<Rightarrow>
          if py_lower (py_strip retry) = ''n'' then (Break, s, w1)
          else
            (case (if allow_change_dsn then change_dsn env s w1 else (Inr (), s, w1)) of
               (Inl e, s2, w2) \<Rightarrow> (Raise e, s2, w2)
             | (Inr _, s2, w2) \<Rightarrow>
                 (case prompt_credentials reprompt_username s2 w2 of
                    (Inl e, s3, w3) \<Rightarrow> (Raise e, s3, w3)
                  | (Inr _, s3, w3) \<Rightarrow> (Continue, s3, w3))))"

definition loop_body ::
  "'t env \<Rightarrow> nat \<Rightarrow> bool \<Rightarrow> bool \<Rightarrow> connector \<Rightarrow> world
     \<Rightarrow> (conn option \<times> cursor option) flow \<times> connector \<times> world" where
  "loop_body env attempts allow_change_dsn reprompt_username s w =
     (case try_connect env attempts s w of
        (Inr r, s1, w1) \<Rightarrow> (Return r, s1, w1)
      | (Inl e, s1, w1) \<Rightarrow>
          retry_prompts env allow_change_dsn reprompt_username s1 (log_failure attempts e w1))"

text \<open>Lines 120 to 122, reached when the loop ends without a \<open>return\<close>.\<close>

definition exhausted ::
  "connector \<Rightarrow> world \<Rightarrow> (exn + conn option \<times> cursor option) \<times> connector \<times> world" where
  "exhausted s w =
     (Inr (None, None), s,
      logger ERROR ''Exhausted connection attempts without success.''
        (py_print ''Unable to connect after multiple attempts.'' w))"

function connect_loop ::
  "'t env \<Rightarrow> nat \<Rightarrow> int \<Rightarrow> bool \<Rightarrow> bool \<Rightarrow> connector \<Rightarrow> world
     \<Rightarrow> (exn + conn option \<times> cursor option) \<times> connector \<times> world" where
  "connect_loop env attempts max_attempts allow_change_dsn reprompt_username s w =
     (if int attempts < max_attempts then
        (case loop_body env (attempts + 1) allow_change_dsn reprompt_username s w of
           (Return r, s1, w1) \<Rightarrow> (Inr r, s1, w1)
         | (Raise e, s1, w1) \<Rightarrow> (Inl e, s1, w1)
         | (Break, s1, w1) \<Rightarrow> exhausted s1 w1
         | (Continue, s1, w1) \<Rightarrow>
             connect_loop env (attempts + 1) max_attempts allow_change_dsn reprompt_username
               s1 w1)
      else exhausted s w)"
  by pat_completeness auto
termination
  by (relation "measure (\<lambda>(env, a, m, c, r, s, w). nat (m - int a))") auto

declare connect_loop.simps [simp del]

definition connect ::
  "'t env \<Rightarrow> int \<Rightarrow> bool \<Rightarrow> bool \<Rightarrow> connector \<Rightarrow> world
     \<Rightarrow> (exn + conn option \<times> cursor option) \<times> connector \<times> world" where
  "connect env max_attempts allow_change_dsn reprompt_username s w =
     connect_loop env 0 max_attempts allow_change_dsn reprompt_username s w"

subsection \<open>\<open>query_dataframe\<close> and \<open>close\<close>\<close>

text \<open>
  \<open>import pandas\<close> is the first statement of \<open>query_dataframe\<close>, ahead of the
  test of \<open>self.conn\<close>. Nothing is assigned to \<open>self\<close>.
\<close>

definition query_dataframe ::
  "'t env \<Rightarrow> string \<Rightarrow> connector \<Rightarrow> world \<Rightarrow> (exn + 't) \<times> connector \<times> world" where
  "query_dataframe env sql s w =
     (case pandas env of
        None \<Rightarrow> (Inl (Exn ImportError (''No module named '' @ [CHR 39] @ ''pandas'' @ [CHR 39])), s, w)
      | Some read_sql \<Rightarrow>
          (case conn s of
             None \<Rightarrow>
               (Inl (Exn RuntimeError ''No active database connection. Call connect() first.''),
                s, w)
           | Some c \<Rightarrow> (read_sql (trace w) sql c, s, emit (ReadSql sql c) w)))"

text \<open>The \<open>try\<close> block of \<open>close\<close>: the first exception ends it.\<close>

definition close_body :: "'t env \<Rightarrow> connector \<Rightarrow> world \<Rightarrow> (exn + unit) \<times> world" where
  "close_body env s w =
     (case (case cursor s of
              None \<Rightarrow> (Inr (), w)
            | Some cu \<Rightarrow>
                (case cursor_close env (trace w) cu of
                   Some e \<Rightarrow> (Inl e, emit (CursorClose cu) w)
                 | None \<Rightarrow> (Inr (), logger INFO ''Cursor closed.'' (emit (CursorClose cu) w)))) of
        (Inl e, w1) \<Rightarrow> (Inl e, w1)
      | (Inr _, w1) \<Rightarrow>
          (case conn s of
             None \<Rightarrow> (Inr (), w1)
           | Some c \<Rightarrow>
               (case conn_close env (trace w1) c of
                  Some e \<Rightarrow> (Inl e, emit (ConnClose c) w1)
                | None \<Rightarrow> (Inr (), logger INFO ''Connection closed.'' (emit (ConnClose c) w1)))))"

definition close :: "'t env \<Rightarrow> connector \<Rightarrow> world \<Rightarrow> (exn + unit) \<times> connector \<times> world" where
  "close env s w =
     (case close_body env s w of
        (Inl e, w1) \<Rightarrow> (Inr (), s, logger ERROR (''Error closing resources: '' @ str_exn e) w1)
      | (Inr _, w1) \<Rightarrow> (Inr (), s, w1))"


section \<open>Observations on a run\<close>

text \<open>The number of calls to \<open>pyodbc.connect\<close> recorded in a trace.\<close>

definition is_open :: "event \<Rightarrow> bool" where
  "is_open e = (case e of DrvConnect _ \<Rightarrow> True | _ \<Rightarrow> False)"

definition n_opens :: "event list \<Rightarrow> nat" where
  "n_opens tr = length (filter is_open tr)"

text \<open>The events a run added, given the world before it and the world after it.\<close>

definition events_since :: "world \<Rightarrow> world \<Rightarrow> event list" where
  "events_since w w' = drop (length (trace w)) (trace w')"

text \<open>\<open>quiet w w'\<close>: the trace of \<open>w'\<close> continues that of \<open>w\<close> without a driver connect.\<close>

definition quiet :: "world \<Rightarrow> world \<Rightarrow> bool" where
  "quiet w w' \<longleftrightarrow> (\<exists>evs. trace w' = trace w @ evs \<and> n_opens evs = 0)"

text \<open>
  An attempt made when the trace is \<open>tr\<close>, with connection string \<open>cs\<close>, succeeds
  when \<open>pyodbc.connect\<close> returns a connection and \<open>cursor()\<close> on it returns a cursor.
\<close>

definition attempt_ok :: "'t env \<Rightarrow> event list \<Rightarrow> string \<Rightarrow> bool" where
  "attempt_ok env tr cs =
     (case drv_connect env tr cs of
        Inl e \<Rightarrow> False
      | Inr c \<Rightarrow>
          (case conn_cursor env (tr @ [DrvConnect cs]) c of
             Inl e \<Rightarrow> False
           | Inr cu \<Rightarrow> True))"

text \<open>The two shapes of the connector's pair of references.\<close>

definition paired :: "connector \<Rightarrow> bool" where
  "paired s \<longleftrightarrow> (conn s = None) = (cursor s = None)"

definition cursor_has_conn :: "connector \<Rightarrow> bool" where
  "cursor_has_conn s \<longleftrightarrow> (cursor s = None \<or> conn s \<noteq> None)"

text \<open>
  The calls to \<open>pyodbc.connect\<close> recorded in a trace: for each, the trace up to the
  call and the connection string passed.
\<close>

definition attempts_of :: "event list \<Rightarrow> (event list \<times> string) list" where
  "attempts_of tr =
     concat (map (\<lambda>i. case tr ! i of DrvConnect cs \<Rightarrow> [(take i tr, cs)] | _ \<Rightarrow> [])
               [0 ..< length tr])"

subsection \<open>What counts as an integer entry\<close>











section \<open>Sample machines, connectors and users\<close>

text \<open>
  A driver that refuses every connection, and one registered data source; the
  interpreter has the default digit limit.
\<close>

definition refusing_env :: "unit env" where
  "refusing_env =
     \<lparr>int_max_str_digits = 4300,
      data_sources = (\<lambda>tr. Inr [(''sales'', ''SQL Server'')]),
      drv_connect = (\<lambda>tr cs. Inl (Exn PyodbcError ''login failed'')),
      conn_cursor = (\<lambda>tr c. Inr 7),
      cursor_close = (\<lambda>tr cu. None),
      conn_close = (\<lambda>tr c. None),
      pandas = None\<rparr>"

text \<open>The same machine with no data source registered.\<close>

definition bare_env :: "unit env" where
  "bare_env = refusing_env\<lparr>data_sources := (\<lambda>tr. Inr [])\<rparr>"

text \<open>
  A machine whose driver accepts every connection and closes without complaint,
  with pandas installed.
\<close>

definition serving_env :: "string env" where
  "serving_env =
     \<lparr>int_max_str_digits = 4300,
      data_sources = (\<lambda>tr. Inr [(''sales'', ''SQL Server'')]),
      drv_connect = (\<lambda>tr cs. Inr 5),
      conn_cursor = (\<lambda>tr c. Inr 7),
      cursor_close = (\<lambda>tr cu. None),
      conn_close = (\<lambda>tr c. None),
      pandas = Some (\<lambda>tr sql c. Inr (''rows of '' @ sql))\<rparr>"

text \<open>The same driver on an interpreter without pandas.\<close>

definition lean_env :: "string env" where
  "lean_env = serving_env\<lparr>pandas := None\<rparr>"

text \<open>A driver that opens the connection and then fails to hand out a cursor.\<close>

definition cursorless_env :: "string env" where
  "cursorless_env =
     serving_env\<lparr>conn_cursor := (\<lambda>tr c. Inl (Exn PyodbcError ''no cursor''))\<rparr>"



text \<open>A driver that times out on the first connection of a session and then serves.\<close>

definition flaky_env :: "string env" where
  "flaky_env =
     serving_env\<lparr>drv_connect :=
        (\<lambda>tr cs. if n_opens tr < 1 then Inl (Exn OtherException ''timeout'') else Inr 5)\<rparr>"

text \<open>A driver that checks the password, and two registered data sources.\<close>

definition checking_env :: "string env" where
  "checking_env =
     serving_env\<lparr>
       data_sources := (\<lambda>tr. Inr [(''sales'', ''SQL Server''), (''staff'', ''PostgreSQL'')]),
       drv_connect :=
         (\<lambda>tr cs. if cs = ''DSN=sales;UID=ann;PWD=secret'' then Inr 5
                   else Inl (Exn PyodbcError ''login failed''))\<rparr>"

definition fresh :: connector where
  "fresh = \<lparr>dsn = ''sales'', username = ''ann'', password = ''pw'', conn = None, cursor = None\<rparr>"

definition linked :: connector where
  "linked = fresh\<lparr>conn := Some 5, cursor := Some 7\<rparr>"

definition silent :: world where
  "silent = \<lparr>stdin = [], trace = []\<rparr>"

text \<open>A user who keeps going through two failures, typing a new password each time.\<close>

definition two_rounds :: world where
  "two_rounds = \<lparr>stdin = ['''', ''pw1'', ''Y'', ''pw2''], trace = []\<rparr>"

text \<open>A user who accepts one retry.\<close>

definition one_retry :: world where
  "one_retry = \<lparr>stdin = [''y'', ''pw1''], trace = []\<rparr>"

text \<open>A user who says yes to the retry, no to a new DSN, and types a new password.\<close>

definition keen_user :: world where
  "keen_user = \<lparr>stdin = [''y'', ''n'', ''pw2''], trace = []\<rparr>"

text \<open>A user who gives up at the first retry question.\<close>

definition quitter :: world where
  "quitter = \<lparr>stdin = [''n''], trace = []\<rparr>"

text \<open>A user who picks data source 0 and types a user name and a password.\<close>

definition newcomer :: world where
  "newcomer = \<lparr>stdin = [''0'', '' ann '', ''pw''], trace = []\<rparr>"

text \<open>A user who asks for another DSN after a failure, then gives up.\<close>

definition switcher :: world where
  "switcher = \<lparr>stdin = [''y'', ''Y'', ''pw2'', ''n''], trace = []\<rparr>"

text \<open>
  The worlds \<open>switcher\<close> goes through on a machine without data sources: after the
  refused attempt, after the answer to the retry question, after the answer to the
  change-DSN question, and after \<open>_select_dsn\<close> has raised.
\<close>

definition switcher_tried :: world where
  "switcher_tried = snd (snd (try_connect bare_env (Suc 0) fresh switcher))"

definition switcher_retried :: world where
  "switcher_retried =
     snd (py_input ''Retry? [Y/n]: ''
            (py_print (CHR 10 # ''Connection failed.'')
               (log_failure (Suc 0) (Exn PyodbcError ''login failed'') switcher_tried)))"

definition switcher_asked :: world where
  "switcher_asked = snd (py_input ''Change DSN as well? [y/N]: '' switcher_retried)"

definition switcher_refused :: world where
  "switcher_refused = snd (select_dsn bare_env switcher_asked)"

definition switcher_reprompted :: world where
  "switcher_reprompted =
     snd (snd (prompt_credentials False fresh
       (logger ERROR ''Unable to change DSN after failure: No DSNs found on this system.''
          (py_print ''Unable to change DSN: No DSNs found on this system.'' switcher_refused))))"

text \<open>A user who remembers the password at the second try.\<close>

definition forgetful :: world where
  "forgetful = \<lparr>stdin = [''y'', ''secret''], trace = []\<rparr>"



section \<open>Properties\<close>


subsection \<open>\<open>int\<close> against the grammar of integer literals\<close>




















subsection \<open>Traces\<close>

lemma trace_emit [simp]: "trace (emit e w) = trace w @ [e]"
  by (simp add: emit_def)

lemma stdin_emit [simp]: "stdin (emit e w) = stdin w"
  by (simp add: emit_def)

lemma trace_py_print [simp]: "trace (py_print m w) = trace w @ [Print m]"
  by (simp add: py_print_def)

lemma stdin_py_print [simp]: "stdin (py_print m w) = stdin w"
  by (simp add: py_print_def)

lemma trace_logger [simp]: "trace (logger l m w) = trace w @ [Log l m]"
  by (simp add: logger_def)

lemma stdin_logger [simp]: "stdin (logger l m w) = stdin w"
  by (simp add: logger_def)

lemma n_opens_append [simp]: "n_opens (xs @ ys) = n_opens xs + n_opens ys"
  by (simp add: n_opens_def)

lemma n_opens_simps [simp]:
  "n_opens [] = 0"
  "n_opens (DrvConnect cs # tr) = Suc (n_opens tr)"
  "n_opens (Print m # tr) = n_opens tr"
  "n_opens (Input p a # tr) = n_opens tr"
  "n_opens (GetPass p a # tr) = n_opens tr"
  "n_opens (Log l m # tr) = n_opens tr"
  "n_opens (DataSources # tr) = n_opens tr"
  "n_opens (ConnCursor c # tr) = n_opens tr"
  "n_opens (CursorClose cu # tr) = n_opens tr"
  "n_opens (ConnClose c # tr) = n_opens tr"
  "n_opens (ReadSql q c # tr) = n_opens tr"
  by (simp_all add: n_opens_def is_open_def)

text \<open>Each operation only appends to the trace.\<close>

lemma py_input_trace:
  "py_input p w = (r, w') \<Longrightarrow>
     trace w' = trace w @ [Input p (case r of Inl _ \<Rightarrow> None | Inr l \<Rightarrow> Some l)]"
  by (auto simp: py_input_def split: list.splits)

lemma getpass_trace:
  "getpass p w = (r, w') \<Longrightarrow>
     trace w' = trace w @ [GetPass p (case r of Inl _ \<Rightarrow> None | Inr l \<Rightarrow> Some l)]"
  by (auto simp: getpass_def split: list.splits)

lemma quiet_refl [simp]: "quiet w w"
  by (simp add: quiet_def)

lemma quiet_trans: "quiet w w1 \<Longrightarrow> quiet w1 w2 \<Longrightarrow> quiet w w2"
  by (auto simp: quiet_def)

lemma quiet_emit: "\<not> is_open e \<Longrightarrow> quiet w w1 \<Longrightarrow> quiet w (emit e w1)"
  by (auto simp: quiet_def n_opens_def)

lemma quiet_print [simp]: "quiet w w1 \<Longrightarrow> quiet w (py_print m w1)"
  by (auto simp: quiet_def)

lemma quiet_logger [simp]: "quiet w w1 \<Longrightarrow> quiet w (logger l m w1)"
  by (auto simp: quiet_def)

lemma quiet_py_input: "py_input p w = (r, w') \<Longrightarrow> quiet w w'"
  by (auto simp: quiet_def dest: py_input_trace)

lemma quiet_getpass: "getpass p w = (r, w') \<Longrightarrow> quiet w w'"
  by (auto simp: quiet_def dest: getpass_trace)

lemma quiet_print_dsns: "quiet w (print_dsns i l w)"
proof (induction i l w rule: print_dsns.induct)
  case (1 i w)
  then show ?case by simp
next
  case (2 i name driver rest w)
  have "quiet w (py_print (''['' @ str_nat i @ ''] '' @ name @ ''  ('' @ driver @ '')'') w)"
    by simp
  from this 2 show ?case by (simp only: print_dsns.simps) (rule quiet_trans)
qed

lemma quiet_select_loop: "select_loop m d w = (r, w') \<Longrightarrow> quiet w w'"
proof (induction m d w arbitrary: r w' rule: select_loop.induct)
  case (1 m d w)
  obtain r1 w1 where i: "py_input ''Select a DSN by number: '' w = (r1, w1)"
    by (cases "py_input ''Select a DSN by number: '' w")
  have q1: "quiet w w1" using i by (rule quiet_py_input)
  show ?case
  proof (cases r1)
    case (Inl e)
    with 1(3) i q1 show ?thesis by (simp add: select_loop.simps)
  next
    case (Inr line)
    show ?thesis
    proof (cases "py_int m line")
      case None
      with 1(3) i Inr
      have "select_loop m d (py_print ''Please enter a valid number.'' w1) = (r, w')"
        by (simp add: select_loop.simps)
      from 1(1)[OF i[symmetric] Inr None this] have "quiet (py_print ''Please enter a valid number.'' w1) w'" .
      moreover have "quiet w (py_print ''Please enter a valid number.'' w1)" using q1 by simp
      ultimately show ?thesis by (rule quiet_trans[rotated])
    next
      case (Some sel)
      show ?thesis
      proof (cases "0 \<le> sel \<and> sel < int (length d)")
        case True
        with 1(3) i Inr Some q1 show ?thesis
          by (auto simp: select_loop.simps Let_def)
      next
        case False
        with 1(3) i Inr Some
        have "select_loop m d (py_print ''Invalid selection. Try again.'' w1) = (r, w')"
          by (simp add: select_loop.simps)
        from 1(2)[OF i[symmetric] Inr Some False this]
        have "quiet (py_print ''Invalid selection. Try again.'' w1) w'" .
        moreover have "quiet w (py_print ''Invalid selection. Try again.'' w1)" using q1 by simp
        ultimately show ?thesis by (rule quiet_trans[rotated])
      qed
    qed
  qed
qed


text \<open>
  C9. With \<open>max_attempts \<le> 0\<close> the loop body never runs: \<open>connect\<close> calls neither the
  driver nor the terminal, prints and logs the exhaustion messages, returns
  \<open>(None, None)\<close> and leaves every field of the connector as it was.
\<close>

theorem connect_without_attempts:
  "max_attempts \<le> 0 \<Longrightarrow>
     connect env max_attempts allow_change_dsn reprompt_username s w =
       (Inr (None, None), s,
        w\<lparr>trace := trace w @ [Print ''Unable to connect after multiple attempts.'',
                               Log ERROR ''Exhausted connection attempts without success.'']\<rparr>)"
  by (simp add: connect_def connect_loop.simps exhausted_def logger_def py_print_def emit_def)

theorem connect_without_attempts_witness:
  "(-2 :: int) \<le> 0 \<and>
   connect refusing_env (-2) True False fresh silent =
     (Inr (None, None), fresh,
      \<lparr>stdin = [], trace = [Print ''Unable to connect after multiple attempts.'',
                            Log ERROR ''Exhausted connection attempts without success.'']\<rparr>)"
  using connect_without_attempts [of "-2" refusing_env True False fresh silent]
  by (simp add: silent_def)



lemma stdin_print_dsns [simp]: "stdin (print_dsns i l w) = stdin w"
  by (induction i l w rule: print_dsns.induct) simp_all






subsection \<open>The retry loop, one round at a time\<close>

lemma connect_loop_stop:
  "\<not> int a < k \<Longrightarrow> connect_loop env a k acd ru s w = exhausted s w"
  by (simp add: connect_loop.simps)

lemma connect_loop_round:
  "int a < k \<Longrightarrow> loop_body env (Suc a) acd ru s w = (f, s1, w1) \<Longrightarrow>
     connect_loop env a k acd ru s w =
       (case f of
          Return r \<Rightarrow> (Inr r, s1, w1)
        | Raise e \<Rightarrow> (Inl e, s1, w1)
        | Break \<Rightarrow> exhausted s1 w1
        | Continue \<Rightarrow> connect_loop env (Suc a) k acd ru s1 w1)"
  by (simp add: connect_loop.simps [of env a] split: flow.splits)

lemma connect_loop_rounds [case_names stop round]:
  assumes "\<And>a s w. \<not> int a < k \<Longrightarrow> P a s w"
    and "\<And>a s w. int a < k \<Longrightarrow>
           (\<And>s1 w1. loop_body env (Suc a) acd ru s w = (Continue, s1, w1) \<Longrightarrow> P (Suc a) s1 w1)
           \<Longrightarrow> P a s w"
  shows "P a s w"
proof -
  have "env' = env \<Longrightarrow> k' = k \<Longrightarrow> acd' = acd \<Longrightarrow> ru' = ru \<Longrightarrow> P a s w"
    for env' k' acd' ru'
  proof (induction env' a k' acd' ru' s w rule: connect_loop.induct)
    case (1 env' a k' acd' ru' s w)
    show ?case
    proof (cases "int a < k")
      case False
      then show ?thesis by (rule assms(1))
    next
      case True
      show ?thesis
      proof (rule assms(2) [OF True])
        fix s1 w1
        assume "loop_body env (Suc a) acd ru s w = (Continue, s1, w1)"
        with True 1(2-5) show "P (Suc a) s1 w1"
          using "1.IH" by auto
      qed
    qed
  qed
  then show ?thesis by simp
qed


lemma retry_prompts_no_return: "retry_prompts env acd ru s w \<noteq> (Return r, s1, w1)"
  by (auto simp: retry_prompts_def split: prod.splits sum.splits)

lemma try_connect_success:
  "try_connect env n s w = (Inr r, s1, w1) \<Longrightarrow>
     \<exists>c cu. r = (Some c, Some cu) \<and> conn s1 = Some c \<and> cursor s1 = Some cu"
  by (auto simp: try_connect_def Let_def split: sum.splits)

lemma loop_body_return:
  "loop_body env n acd ru s w = (Return r, s1, w1) \<Longrightarrow>
     \<exists>c cu. r = (Some c, Some cu) \<and> conn s1 = Some c \<and> cursor s1 = Some cu"
  by (auto simp: loop_body_def retry_prompts_no_return split: prod.splits sum.splits
           dest: try_connect_success)

lemma connect_loop_stored:
  "connect_loop env a k acd ru s w = (Inr (Some c, x), s', w') \<Longrightarrow>
     conn s' = Some c \<and> cursor s' = x"
proof (induction a s w rule: connect_loop_rounds [where env = env and k = k and acd = acd and ru = ru])
  case (stop a s w)
  then show ?case by (simp add: connect_loop_stop exhausted_def)
next
  case (round a s w)
  obtain f s1 w1 where lb: "loop_body env (Suc a) acd ru s w = (f, s1, w1)"
    by (cases "loop_body env (Suc a) acd ru s w") auto
  show ?case
  proof (cases f)
    case (Return r)
    with round(1,3) lb have "r = (Some c, x)" "s' = s1"
      by (simp_all add: connect_loop_round)
    with loop_body_return lb Return show ?thesis by fastforce
  next
    case (Raise e)
    with round(1,3) lb show ?thesis by (simp add: connect_loop_round)
  next
    case Break
    with round(1,3) lb show ?thesis by (simp add: connect_loop_round exhausted_def)
  next
    case Continue
    with round lb show ?thesis by (simp add: connect_loop_round)
  qed
qed

subsection \<open>\<open>query_dataframe\<close> and \<open>close\<close>\<close>

text \<open>
  C6, as the code has it. On an interpreter where pandas can be imported,
  \<open>query_dataframe\<close> on a connector without a connection raises
  \<open>RuntimeError("No active database connection. Call connect() first.")\<close>, the
  connector's "not connected" error, touching neither the driver nor pandas nor the
  connector; with a connection it hands the query to \<open>pandas.read_sql\<close> on that
  connection and returns what comes back. Where pandas is missing, the import at the top
  of the function raises before the connection is looked at.
\<close>

theorem query_dataframe_contract:
  "(pandas env = Some read_sql \<and> conn s = None \<longrightarrow>
      query_dataframe env sql s w =
        (Inl (Exn RuntimeError ''No active database connection. Call connect() first.''), s, w))
   \<and> (pandas env = Some read_sql \<and> conn s = Some c \<longrightarrow>
      query_dataframe env sql s w = (read_sql (trace w) sql c, s, emit (ReadSql sql c) w))
   \<and> (pandas env = None \<longrightarrow>
      query_dataframe env sql s w =
        (Inl (Exn ImportError (''No module named '' @ [CHR 39] @ ''pandas'' @ [CHR 39])), s, w))"
  by (simp add: query_dataframe_def)

theorem query_dataframe_contract_witness:
  "query_dataframe serving_env ''SELECT 1'' fresh silent =
     (Inl (Exn RuntimeError ''No active database connection. Call connect() first.''),
      fresh, silent)
   \<and> query_dataframe serving_env ''SELECT 1'' linked silent =
     (Inr ''rows of SELECT 1'', linked, \<lparr>stdin = [], trace = [ReadSql ''SELECT 1'' 5]\<rparr>)
   \<and> query_dataframe lean_env ''SELECT 1'' linked silent =
     (Inl (Exn ImportError (''No module named '' @ [CHR 39] @ ''pandas'' @ [CHR 39])),
      linked, silent)"
  using query_dataframe_contract
          [of serving_env "\<lambda>tr sql c. Inr (''rows of '' @ sql)" fresh "''SELECT 1''" silent]
        query_dataframe_contract
          [of serving_env "\<lambda>tr sql c. Inr (''rows of '' @ sql)" linked "''SELECT 1''" silent 5]
        query_dataframe_contract [of lean_env _ linked "''SELECT 1''" silent]
  by (simp add: serving_env_def lean_env_def fresh_def linked_def silent_def emit_def)

text \<open>
  The claim as written fails on an interpreter without pandas: the connector has no
  connection, and the error is the import error, not the "not connected" one.
\<close>

theorem query_dataframe_counterexample:
  "conn fresh = None \<and>
   fst (query_dataframe lean_env ''SELECT 1'' fresh silent) \<noteq>
     Inl (Exn RuntimeError ''No active database connection. Call connect() first.'')"
  by (simp add: query_dataframe_def lean_env_def serving_env_def fresh_def)


lemma close_result: "fst (close env s w) = Inr () \<and> fst (snd (close env s w)) = s"
  by (simp add: close_def split: prod.splits sum.splits)











text \<open>
  C10. When \<open>connect\<close> has returned a connection and \<open>close\<close> has run, the connector
  still holds that connection, so \<open>query_dataframe\<close> does not take its "not connected"
  branch for any SQL text: with pandas installed it passes the query to
  \<open>pandas.read_sql\<close> on that same connection, on which \<open>close()\<close> has been called
  whenever closing the cursor did not raise.
\<close>

theorem query_after_close:
  assumes "connect env k acd ru s w = (Inr (Some c, Some cu), s1, w1)"
    and "close env s1 w1 = (r, s2, w2)"
  shows "conn s2 = Some c
    \<and> query_dataframe env sql s2 w2 =
        (case pandas env of
           None \<Rightarrow>
             (Inl (Exn ImportError (''No module named '' @ [CHR 39] @ ''pandas'' @ [CHR 39])),
              s2, w2)
         | Some read_sql \<Rightarrow> (read_sql (trace w2) sql c, s2, emit (ReadSql sql c) w2))
    \<and> (cursor_close env (trace w1) cu = None \<longrightarrow> ConnClose c \<in> set (events_since w1 w2))"
proof -
  from assms(1) have st: "conn s1 = Some c" "cursor s1 = Some cu"
    using connect_loop_stored [of env 0 k acd ru s w c "Some cu" s1 w1]
    by (simp_all add: connect_def)
  from assms(2) close_result [of env s1 w1] have s2: "s2 = s1" by simp
  have "cursor_close env (trace w1) cu = None \<longrightarrow> ConnClose c \<in> set (events_since w1 w2)"
    using assms(2) st
    by (auto simp: close_def close_body_def events_since_def split: option.splits)
  with st s2 show ?thesis
    by (simp add: query_dataframe_def split: option.splits)
qed

theorem query_after_close_witness:
  "connect serving_env 3 True False fresh silent =
     (Inr (Some 5, Some 7), linked,
      \<lparr>stdin = [],
       trace = [Log DEBUG (''Attempting connection (attempt 1) to DSN='' @ [CHR 39] @ ''sales''
                             @ [CHR 39] @ '' as user='' @ [CHR 39] @ ''ann'' @ [CHR 39]),
                DrvConnect ''DSN=sales;UID=ann;PWD=pw'', ConnCursor 5,
                Log INFO (''Connected to DSN '' @ [CHR 39] @ ''sales'' @ [CHR 39]
                            @ '' successfully on attempt 1.'')]\<rparr>)
   \<and> fst (query_dataframe serving_env ''SELECT 1''
            (fst (snd (close serving_env linked
                         (snd (snd (connect serving_env 3 True False fresh silent))))))
            (snd (snd (close serving_env linked
                         (snd (snd (connect serving_env 3 True False fresh silent)))))))
       = Inr ''rows of SELECT 1''"
proof -
  let ?w1 = "snd (snd (connect serving_env 3 True False fresh silent))"
  have c1: "connect serving_env 3 True False fresh silent =
     (Inr (Some 5, Some 7), linked,
      \<lparr>stdin = [],
       trace = [Log DEBUG (''Attempting connection (attempt 1) to DSN='' @ [CHR 39] @ ''sales''
                             @ [CHR 39] @ '' as user='' @ [CHR 39] @ ''ann'' @ [CHR 39]),
                DrvConnect ''DSN=sales;UID=ann;PWD=pw'', ConnCursor 5,
                Log INFO (''Connected to DSN '' @ [CHR 39] @ ''sales'' @ [CHR 39]
                            @ '' successfully on attempt 1.'')]\<rparr>)"
    by code_simp
  then have c1': "connect serving_env 3 True False fresh silent = (Inr (Some 5, Some 7), linked, ?w1)"
    by simp
  obtain r s2 w2 where c2: "close serving_env linked ?w1 = (r, s2, w2)"
    by (cases "close serving_env linked ?w1") auto
  from query_after_close [OF c1' c2, of "''SELECT 1''"] c2
  have "fst (query_dataframe serving_env ''SELECT 1''
            (fst (snd (close serving_env linked ?w1))) (snd (snd (close serving_env linked ?w1))))
       = Inr ''rows of SELECT 1''"
    by (simp add: serving_env_def)
  with c1 show ?thesis by simp
qed


subsection \<open>What one round does to the trace and to the references\<close>

lemma quiet_select_dsn: "select_dsn env w = (r, w') \<Longrightarrow> quiet w w'"
proof -
  assume a: "select_dsn env w = (r, w')"
  have q0: "quiet w (emit DataSources w)"
    by (rule quiet_emit) (simp_all add: is_open_def)
  show ?thesis
  proof (cases "data_sources env (trace w)")
    case (Inl e)
    with a q0 show ?thesis by (auto simp: select_dsn_def)
  next
    case (Inr d)
    show ?thesis
    proof (cases "d = []")
      case True
      with a q0 Inr show ?thesis by (auto simp: select_dsn_def)
    next
      case False
      let ?w2 = "print_dsns 0 d (py_print ''Available DSNs:'' (emit DataSources w))"
      from a Inr False have "select_loop (int_max_str_digits env) d ?w2 = (r, w')"
        by (simp add: select_dsn_def)
      then have "quiet ?w2 w'" by (rule quiet_select_loop)
      moreover have "quiet w ?w2"
        using q0 quiet_print_dsns quiet_print quiet_trans by blast
      ultimately show ?thesis using quiet_trans by blast
    qed
  qed
qed

lemma change_dsn_effect:
  assumes "change_dsn env s w = (r, s1, w1)"
  shows "quiet w w1 \<and> conn s1 = conn s \<and> cursor s1 = cursor s"
proof -
  obtain r0 w0 where i: "py_input ''Change DSN as well? [y/N]: '' w = (r0, w0)"
    by (cases "py_input ''Change DSN as well? [y/N]: '' w") auto
  then have q0: "quiet w w0" by (rule quiet_py_input)
  show ?thesis
  proof (cases r0)
    case (Inl e)
    with assms i q0 show ?thesis by (simp add: change_dsn_def)
  next
    case (Inr answer)
    show ?thesis
    proof (cases "py_lower (py_strip answer) = ''y''")
      case False
      with assms i q0 Inr show ?thesis by (simp add: change_dsn_def)
    next
      case True
      obtain r2 w2 where sd: "select_dsn env w0 = (r2, w2)"
        by (cases "select_dsn env w0") auto
      then have "quiet w0 w2" by (rule quiet_select_dsn)
      with q0 have q2: "quiet w w2" by (rule quiet_trans)
      from assms i Inr True sd q2 show ?thesis
        by (cases r2) (auto simp: change_dsn_def)
    qed
  qed
qed

lemma prompt_credentials_effect:
  assumes "prompt_credentials ru s w = (r, s1, w1)"
  shows "quiet w w1 \<and> conn s1 = conn s \<and> cursor s1 = cursor s \<and> dsn s1 = dsn s"
proof -
  have u: "quiet w wa \<and> conn sa = conn s \<and> cursor sa = cursor s \<and> dsn sa = dsn s"
    if "(if ru then
              (case py_input ''Enter your database username: '' w of
                 (Inl e, w1) \<Rightarrow> (Inl e, s, w1)
               | (Inr u, w1) \<Rightarrow> (Inr (), s\<lparr>username := py_strip u\<rparr>, w1))
            else (Inr (), s, w)) = (ra, sa, wa)" for ra sa wa
    using that
    by (auto split: if_splits prod.splits sum.splits dest: quiet_py_input)
  obtain ra sa wa where a: "(if ru then
              (case py_input ''Enter your database username: '' w of
                 (Inl e, w1) \<Rightarrow> (Inl e, s, w1)
               | (Inr u, w1) \<Rightarrow> (Inr (), s\<lparr>username := py_strip u\<rparr>, w1))
            else (Inr (), s, w)) = (ra, sa, wa)"
    using prod_cases3 by blast
  note ua = u [OF a]
  show ?thesis
  proof (cases ra)
    case (Inl e)
    with assms a ua show ?thesis by (simp add: prompt_credentials_def)
  next
    case (Inr x)
    obtain rp wp where g: "getpass ''Enter your database password: '' wa = (rp, wp)"
      by (cases "getpass ''Enter your database password: '' wa") auto
    then have "quiet wa wp" by (rule quiet_getpass)
    with ua have "quiet w wp" using quiet_trans by blast
    with assms a ua Inr g show ?thesis
      by (cases rp) (auto simp: prompt_credentials_def)
  qed
qed


lemma quiet_after:
  "trace w0 = trace w @ [e] \<Longrightarrow> quiet w0 w1 \<Longrightarrow>
     \<exists>evs. trace w1 = trace w @ e # evs \<and> n_opens evs = 0"
  by (auto simp: quiet_def)

lemma change_dsn_first:
  assumes "change_dsn env s w = (r, s1, w1)"
  shows "\<exists>c evs. trace w1 = trace w @ Input ''Change DSN as well? [y/N]: '' c # evs
                  \<and> n_opens evs = 0"
proof -
  obtain r0 w0 where i: "py_input ''Change DSN as well? [y/N]: '' w = (r0, w0)"
    by (cases "py_input ''Change DSN as well? [y/N]: '' w") auto
  note t0 = py_input_trace [OF i]
  have "quiet w0 w1"
  proof (cases r0)
    case (Inl e)
    with assms i show ?thesis by (simp add: change_dsn_def)
  next
    case (Inr answer)
    show ?thesis
    proof (cases "py_lower (py_strip answer) = ''y''")
      case False
      with assms i Inr show ?thesis by (simp add: change_dsn_def)
    next
      case True
      obtain r2 w2 where sd: "select_dsn env w0 = (r2, w2)"
        by (cases "select_dsn env w0") auto
      then have "quiet w0 w2" by (rule quiet_select_dsn)
      with assms i Inr True sd show ?thesis
        by (cases r2) (auto simp: change_dsn_def)
    qed
  qed
  with t0 show ?thesis using quiet_after by blast
qed

lemma prompt_password_only:
  assumes "prompt_credentials False s w = (r, s1, w1)"
  shows "\<exists>p. trace w1 = trace w @ [GetPass ''Enter your database password: '' p]"
  using assms
  by (auto simp: prompt_credentials_def split: prod.splits sum.splits dest: getpass_trace)

lemma retry_prompts_effect:
  assumes "retry_prompts env acd ru s w = (f, s1, w1)"
  shows "\<exists>ans evs.
           trace w1 = trace w @ Print (CHR 10 # ''Connection failed.'')
                        # Input ''Retry? [Y/n]: '' ans # evs
         \<and> n_opens evs = 0 \<and> conn s1 = conn s \<and> cursor s1 = cursor s
         \<and> (f = Break \<longrightarrow> (\<exists>t. ans = Some t \<and> py_lower (py_strip t) = ''n''))
         \<and> (\<forall>t. ans = Some t \<and> py_lower (py_strip t) \<noteq> ''n'' \<and> acd \<longrightarrow>
               (\<exists>c evs'. evs = Input ''Change DSN as well? [y/N]: '' c # evs'))
         \<and> (\<forall>t. ans = Some t \<and> py_lower (py_strip t) \<noteq> ''n'' \<and> \<not> acd \<and> \<not> ru \<longrightarrow>
               (\<exists>p. evs = [GetPass ''Enter your database password: '' p]))"
proof -
  let ?w0 = "py_print (CHR 10 # ''Connection failed.'') w"
  obtain r1 wa where i: "py_input ''Retry? [Y/n]: '' ?w0 = (r1, wa)"
    by (cases "py_input ''Retry? [Y/n]: '' ?w0") auto
  from py_input_trace [OF i]
  have ta: "trace wa = trace w @ [Print (CHR 10 # ''Connection failed.''),
              Input ''Retry? [Y/n]: '' (case r1 of Inl x \<Rightarrow> None | Inr l \<Rightarrow> Some l)]"
    by simp
  show ?thesis
  proof (cases r1)
    case (Inl e)
    with assms i ta show ?thesis by (auto simp: retry_prompts_def)
  next
    case (Inr retry)
    show ?thesis
    proof (cases "py_lower (py_strip retry) = ''n''")
      case True
      with assms i ta Inr show ?thesis by (auto simp: retry_prompts_def)
    next
      case False
      obtain r2 s2 w2 where c: "(if acd then change_dsn env s wa else (Inr (), s, wa)) = (r2, s2, w2)"
        using prod_cases3 by blast
      have c_eff: "conn s2 = conn s \<and> cursor s2 = cursor s"
        using c change_dsn_effect [of env s wa r2 s2 w2] by (auto split: if_splits)
      have c_tr: "\<exists>evs. trace w2 = trace wa @ evs \<and> n_opens evs = 0
                   \<and> (acd \<longrightarrow> (\<exists>c evs'. evs = Input ''Change DSN as well? [y/N]: '' c # evs'))
                   \<and> (\<not> acd \<longrightarrow> evs = [])"
        using c change_dsn_first [of env s wa r2 s2 w2] by (auto split: if_splits)
      then obtain evs2 where e2: "trace w2 = trace wa @ evs2" "n_opens evs2 = 0"
          "acd \<longrightarrow> (\<exists>c evs'. evs2 = Input ''Change DSN as well? [y/N]: '' c # evs')"
          "\<not> acd \<longrightarrow> evs2 = []"
        by blast
      show ?thesis
      proof (cases r2)
        case (Inl e)
        with assms i Inr False c have "f = Raise e" "s1 = s2" "w1 = w2"
          by (simp_all add: retry_prompts_def)
        moreover from Inl c have "acd" by (auto split: if_splits)
        ultimately show ?thesis using ta Inr False c_eff e2 by auto
      next
        case (Inr u)
        obtain r3 s3 w3 where pc: "prompt_credentials ru s2 w2 = (r3, s3, w3)"
          using prod_cases3 by blast
        from prompt_credentials_effect [OF pc]
        have p_eff: "quiet w2 w3" "conn s3 = conn s2" "cursor s3 = cursor s2" by simp_all
        then obtain evs3 where e3: "trace w3 = trace w2 @ evs3" "n_opens evs3 = 0"
          by (auto simp: quiet_def)
        have e3': "\<not> ru \<longrightarrow> (\<exists>p. evs3 = [GetPass ''Enter your database password: '' p])"
          using pc e3 prompt_password_only [of s2 w2 r3 s3 w3] by auto
        from assms i \<open>r1 = Inr retry\<close> False c Inr pc
        have "f \<noteq> Break" "s1 = s3" "w1 = w3"
          by (auto simp: retry_prompts_def split: sum.splits)
        with ta \<open>r1 = Inr retry\<close> False c_eff p_eff e2 e3 e3' show ?thesis by auto
      qed
    qed
  qed
qed

lemma events_since_append [simp]: "trace w' = trace w @ evs \<Longrightarrow> events_since w w' = evs"
  by (simp add: events_since_def)

lemma try_connect_effect:
  assumes "try_connect env n s w = (r, s1, w1)"
  shows "\<exists>evs. trace w1 = trace w @ evs \<and> n_opens evs = 1"
    and "stdin w1 = stdin w" and "dsn s1 = dsn s"
    and "username s1 = username s" and "password s1 = password s"
  using assms
  by (auto simp: try_connect_def Let_def split: sum.splits)

lemma try_connect_fail:
  assumes "\<And>tr cs. \<not> attempt_ok env tr cs" and "try_connect env n s w = (r, s1, w1)"
  shows "(\<exists>e. r = Inl e) \<and> cursor s1 = cursor s"
proof -
  let ?cs = "conn_str s"
  let ?m = "debug_msg n s"
  from assms(1) [of "trace w @ [Log DEBUG ?m]" ?cs] assms(2) show ?thesis
    by (auto simp: try_connect_def attempt_ok_def Let_def split: sum.splits)
qed

lemma try_connect_refused:
  assumes "\<And>tr cs. \<exists>e. drv_connect env tr cs = Inl e" and "try_connect env n s w = (r, s1, w1)"
  shows "s1 = s"
proof -
  let ?cs = "conn_str s"
  let ?m = "debug_msg n s"
  from assms(1) [of "trace w @ [Log DEBUG ?m]" ?cs] assms(2) show ?thesis
    by (auto simp: try_connect_def Let_def split: sum.splits)
qed

lemma trace_log_failure [simp]:
  "trace (log_failure n e w) =
     trace w @ [Log ERROR ((if exn_cls e = PyodbcError then ''ODBC error on attempt ''
                            else ''Unexpected error on attempt '')
                           @ str_nat n @ '': '' @ str_exn e)]"
  by (simp add: log_failure_def)

lemma loop_body_effect:
  assumes "loop_body env n acd ru s w = (f, s1, w1)"
  shows "\<exists>evs. trace w1 = trace w @ evs \<and> n_opens evs = 1
           \<and> (f = Break \<longrightarrow> (\<exists>t. Input ''Retry? [Y/n]: '' (Some t) \<in> set evs
                                  \<and> py_lower (py_strip t) = ''n''))"
proof -
  obtain r sa wa where tc: "try_connect env n s w = (r, sa, wa)"
    using prod_cases3 by blast
  from try_connect_effect(1) [OF tc]
  obtain evs0 where e0: "trace wa = trace w @ evs0" "n_opens evs0 = 1" by blast
  show ?thesis
  proof (cases r)
    case (Inr v)
    with assms tc e0 show ?thesis by (auto simp: loop_body_def)
  next
    case (Inl e)
    with assms tc have rp: "retry_prompts env acd ru sa (log_failure n e wa) = (f, s1, w1)"
      by (simp add: loop_body_def)
    from retry_prompts_effect [OF rp] e0 show ?thesis by auto
  qed
qed

lemma loop_body_refs:
  assumes "loop_body env n acd ru s w = (f, s1, w1)"
  shows "(\<And>tr cs. \<not> attempt_ok env tr cs) \<Longrightarrow> (\<forall>r. f \<noteq> Return r) \<and> cursor s1 = cursor s"
    and "(\<And>tr cs. \<exists>e. drv_connect env tr cs = Inl e) \<Longrightarrow> conn s1 = conn s"
proof -
  obtain r sa wa where tc: "try_connect env n s w = (r, sa, wa)"
    using prod_cases3 by blast
  {
    assume a: "\<And>tr cs. \<not> attempt_ok env tr cs"
    from try_connect_fail [OF a tc] obtain e where e: "r = Inl e" "cursor sa = cursor s"
      by blast
    with assms tc have rp: "retry_prompts env acd ru sa (log_failure n e wa) = (f, s1, w1)"
      by (simp add: loop_body_def)
    have "f \<noteq> Return r0" for r0
      using rp retry_prompts_no_return [of env acd ru sa "log_failure n e wa" r0 s1 w1]
      by auto
    with retry_prompts_effect [OF rp] e
    show "(\<forall>r. f \<noteq> Return r) \<and> cursor s1 = cursor s" by auto
  }
  {
    assume b: "\<And>tr cs. \<exists>e. drv_connect env tr cs = Inl e"
    from try_connect_refused [OF b tc] have sa: "sa = s" .
    have "\<not> attempt_ok env tr cs" for tr cs
      using b [of tr cs] by (auto simp: attempt_ok_def)
    from try_connect_fail [OF this tc] obtain e where e: "r = Inl e" by blast
    with assms tc sa have rp: "retry_prompts env acd ru s (log_failure n e wa) = (f, s1, w1)"
      by (simp add: loop_body_def)
    from retry_prompts_effect [OF rp] show "conn s1 = conn s" by auto
  }
qed

lemma connect_loop_extends:
  "connect_loop env a k acd ru s w = (r, s', w') \<Longrightarrow> \<exists>evs. trace w' = trace w @ evs"
proof (induction a s w rule: connect_loop_rounds [where env = env and k = k and acd = acd and ru = ru])
  case (stop a s w)
  then show ?case by (auto simp: connect_loop_stop exhausted_def)
next
  case (round a s w)
  obtain f s1 w1 where lb: "loop_body env (Suc a) acd ru s w = (f, s1, w1)"
    using prod_cases3 by blast
  from loop_body_effect [OF lb] obtain evs where e: "trace w1 = trace w @ evs" by blast
  show ?case
  proof (cases f)
    case Continue
    with round lb have "\<exists>evs. trace w' = trace w1 @ evs"
      by (simp add: connect_loop_round)
    with e show ?thesis by auto
  qed (use round(1,3) lb e in \<open>auto simp: connect_loop_round exhausted_def\<close>)
qed


subsection \<open>Every attempt fails\<close>

lemma connect_loop_all_fail:
  assumes fail: "\<And>tr cs. \<not> attempt_ok env tr cs"
  shows "connect_loop env a k acd ru s w = (r, s', w') \<Longrightarrow> (\<forall>e. r \<noteq> Inl e) \<Longrightarrow>
     (\<forall>t. Input ''Retry? [Y/n]: '' (Some t) \<in> set (events_since w w')
            \<longrightarrow> py_lower (py_strip t) \<noteq> ''n'') \<Longrightarrow>
     n_opens (events_since w w') = nat (k - int a) \<and> r = Inr (None, None)
     \<and> cursor s' = cursor s
     \<and> ((\<forall>tr cs. \<exists>e. drv_connect env tr cs = Inl e) \<longrightarrow> conn s' = conn s)
     \<and> (\<exists>evs. trace w' = evs @ [Print ''Unable to connect after multiple attempts.'',
                                   Log ERROR ''Exhausted connection attempts without success.''])"
proof (induction a s w rule: connect_loop_rounds [where env = env and k = k and acd = acd and ru = ru])
  case (stop a s w)
  then show ?case by (auto simp: connect_loop_stop exhausted_def)
next
  case (round a s w)
  obtain f s1 w1 where lb: "loop_body env (Suc a) acd ru s w = (f, s1, w1)"
    using prod_cases3 by blast
  from loop_body_effect [OF lb] obtain evs1 where
    e1: "trace w1 = trace w @ evs1" "n_opens evs1 = 1"
        "f = Break \<longrightarrow> (\<exists>t. Input ''Retry? [Y/n]: '' (Some t) \<in> set evs1
                                  \<and> py_lower (py_strip t) = ''n'')"
    by blast
  from loop_body_refs(1) [OF lb fail] have nr: "\<forall>r. f \<noteq> Return r" and cu: "cursor s1 = cursor s"
    by simp_all
  have co: "(\<forall>tr cs. \<exists>e. drv_connect env tr cs = Inl e) \<longrightarrow> conn s1 = conn s"
    using loop_body_refs(2) [OF lb] by blast
  note unfold = connect_loop_round [OF round(1) lb]
  show ?case
  proof (cases f)
    case (Return x)
    with nr show ?thesis by simp
  next
    case (Raise x)
    with round(3,4) unfold show ?thesis by auto
  next
    case Break
    with round(3) unfold have w': "trace w' = trace w1 @
        [Print ''Unable to connect after multiple attempts.'',
         Log ERROR ''Exhausted connection attempts without success.'']"
      by (auto simp: exhausted_def)
    with e1 have "events_since w w' = evs1 @
        [Print ''Unable to connect after multiple attempts.'',
         Log ERROR ''Exhausted connection attempts without success.'']"
      by simp
    with e1(3) Break round(5) show ?thesis by auto
  next
    case Continue
    with round(3) unfold have next_round: "connect_loop env (Suc a) k acd ru s1 w1 = (r, s', w')"
      by simp
    from connect_loop_extends [OF next_round] obtain evs2 where
      e2: "trace w' = trace w1 @ evs2" by blast
    with e1 have split: "events_since w w' = evs1 @ evs2" "events_since w1 w' = evs2"
      by simp_all
    with round(5) have "\<forall>t. Input ''Retry? [Y/n]: '' (Some t) \<in> set (events_since w1 w')
            \<longrightarrow> py_lower (py_strip t) \<noteq> ''n''"
      by simp
    from round(2) [OF lb [unfolded Continue] next_round round(4) this]
    have ih: "n_opens evs2 = nat (k - int (Suc a))" "r = Inr (None, None)"
      "cursor s' = cursor s1"
      "(\<forall>tr cs. \<exists>e. drv_connect env tr cs = Inl e) \<longrightarrow> conn s' = conn s1"
      "\<exists>evs. trace w' = evs @ [Print ''Unable to connect after multiple attempts.'',
                                   Log ERROR ''Exhausted connection attempts without success.'']"
      using split by simp_all
    from ih(1) e1(2) round(1) split have "n_opens (events_since w w') = nat (k - int a)"
      by simp
    with ih cu co show ?thesis by simp
  qed
qed

text \<open>
  C1, as the code has it. Let every attempt fail, whether \<open>pyodbc.connect\<close> raises or
  \<open>cursor()\<close> does, and let the user answer every prompt, never with \<open>n\<close> to the
  retry question. Then \<open>connect\<close> with \<open>max_attempts = k\<close> calls the driver exactly
  \<open>k\<close> times (for \<open>k \<ge> 1\<close>), prints and logs the final failure as its last two
  events, returns \<open>(None, None)\<close> and leaves the cursor reference alone. The
  connection reference is left alone when it is \<open>pyodbc.connect\<close> that fails each
  time; a failure of \<open>cursor()\<close> comes after \<open>self.conn\<close> has been assigned.
\<close>

theorem connect_every_attempt_fails:
  assumes "\<forall>tr cs. \<not> attempt_ok env tr cs"
    and "connect env k acd ru s w = (r, s', w')"
    and "\<forall>e. r \<noteq> Inl e"
    and "\<forall>t. Input ''Retry? [Y/n]: '' (Some t) \<in> set (events_since w w')
            \<longrightarrow> py_lower (py_strip t) \<noteq> ''n''"
  shows "n_opens (events_since w w') = nat k \<and> r = Inr (None, None)
     \<and> cursor s' = cursor s
     \<and> ((\<forall>tr cs. \<exists>e. drv_connect env tr cs = Inl e) \<longrightarrow> conn s' = conn s)
     \<and> (\<exists>evs. trace w' = evs @ [Print ''Unable to connect after multiple attempts.'',
                                   Log ERROR ''Exhausted connection attempts without success.''])"
  using connect_loop_all_fail [of env 0 k acd ru s w r s' w'] assms
  by (simp add: connect_def)

theorem connect_every_attempt_fails_witness:
  "n_opens (events_since two_rounds
              (snd (snd (connect refusing_env 2 False False fresh two_rounds)))) = 2
   \<and> connect refusing_env 2 False False fresh two_rounds =
     (Inr (None, None), fresh\<lparr>password := ''pw2''\<rparr>,
      \<lparr>stdin = [],
       trace = [
         Log DEBUG (''Attempting connection (attempt 1) to DSN='' @ [CHR 39] @ ''sales''
                      @ [CHR 39] @ '' as user='' @ [CHR 39] @ ''ann'' @ [CHR 39]),
         DrvConnect ''DSN=sales;UID=ann;PWD=pw'',
         Log ERROR ''ODBC error on attempt 1: login failed'',
         Print (CHR 10 # ''Connection failed.''),
         Input ''Retry? [Y/n]: '' (Some []),
         GetPass ''Enter your database password: '' (Some ''pw1''),
         Log DEBUG (''Attempting connection (attempt 2) to DSN='' @ [CHR 39] @ ''sales''
                      @ [CHR 39] @ '' as user='' @ [CHR 39] @ ''ann'' @ [CHR 39]),
         DrvConnect ''DSN=sales;UID=ann;PWD=pw1'',
         Log ERROR ''ODBC error on attempt 2: login failed'',
         Print (CHR 10 # ''Connection failed.''),
         Input ''Retry? [Y/n]: '' (Some ''Y''),
         GetPass ''Enter your database password: '' (Some ''pw2''),
         Print ''Unable to connect after multiple attempts.'',
         Log ERROR ''Exhausted connection attempts without success.'']\<rparr>)"
  (is "?count \<and> connect refusing_env 2 False False fresh two_rounds = (?r, ?s, ?w)")
proof -
  have run: "connect refusing_env 2 False False fresh two_rounds = (?r, ?s, ?w)"
    by code_simp
  have h1: "\<forall>tr cs. \<not> attempt_ok refusing_env tr cs"
    by (simp add: attempt_ok_def refusing_env_def)
  have h3: "\<forall>e. ?r \<noteq> Inl e" by simp
  have a1: "py_lower (py_strip []) \<noteq> ''n''" by code_simp
  have a2: "py_lower (py_strip ''Y'') \<noteq> ''n''" by code_simp
  have h4: "\<forall>t. Input ''Retry? [Y/n]: '' (Some t) \<in> set (events_since two_rounds ?w)
            \<longrightarrow> py_lower (py_strip t) \<noteq> ''n''"
    using a1 a2 by (auto simp: events_since_def two_rounds_def)
  from connect_every_attempt_fails [OF h1 run h3 h4] run show ?thesis by simp
qed

text \<open>
  The claim as written fails for a driver that opens the connection and then raises in
  \<open>cursor()\<close>: both attempts fail and \<open>connect\<close> returns \<open>(None, None)\<close>, yet the
  connector is left holding a connection.
\<close>

theorem connect_every_attempt_fails_counterexample:
  "\<not> attempt_ok cursorless_env [] ''DSN=sales;UID=ann;PWD=pw''
   \<and> fst (connect cursorless_env 2 False False fresh two_rounds) = Inr (None, None)
   \<and> n_opens (trace (snd (snd (connect cursorless_env 2 False False fresh two_rounds)))) = 2
   \<and> conn (fst (snd (connect cursorless_env 2 False False fresh two_rounds))) = Some 5"
  by code_simp

subsection \<open>An attempt succeeds\<close>

lemma attempts_of_iff:
  "(pre, cs) \<in> set (attempts_of tr) \<longleftrightarrow> (\<exists>post. tr = pre @ DrvConnect cs # post)"
proof
  assume "(pre, cs) \<in> set (attempts_of tr)"
  then obtain i where i: "i < length tr" "tr ! i = DrvConnect cs" "pre = take i tr"
    by (auto simp: attempts_of_def split: event.splits)
  from i(1) have "tr = take i tr @ tr ! i # drop (Suc i) tr"
    by (simp add: id_take_nth_drop)
  with i(2,3) show "\<exists>post. tr = pre @ DrvConnect cs # post" by auto
next
  assume "\<exists>post. tr = pre @ DrvConnect cs # post"
  then obtain post where tr: "tr = pre @ DrvConnect cs # post" by blast
  then have "length pre < length tr" "tr ! length pre = DrvConnect cs" "take (length pre) tr = pre"
    by simp_all
  then show "(pre, cs) \<in> set (attempts_of tr)"
    by (force simp: attempts_of_def)
qed

lemma try_connect_outcome:
  assumes "try_connect env n s w = (x, sa, wa)"
  shows "(\<exists>evs. trace wa = trace w @ Log DEBUG (debug_msg n s) # DrvConnect (conn_str s) # evs)
       \<and> ((\<exists>v. x = Inr v) \<longleftrightarrow>
            attempt_ok env (trace w @ [Log DEBUG (debug_msg n s)]) (conn_str s))"
  using assms
  by (auto simp: try_connect_def attempt_ok_def Let_def split: sum.splits)

lemma connect_loop_first_success:
  "connect_loop env a k acd ru s w = (r, s', w') \<Longrightarrow>
     n_opens (trace w) \<le> N \<Longrightarrow> int (a + (N - n_opens (trace w))) < k \<Longrightarrow>
     (\<forall>pre cs post. trace w' = pre @ DrvConnect cs # post \<and> length (trace w) \<le> length pre \<longrightarrow>
        (n_opens pre < N \<longrightarrow> \<not> attempt_ok env pre cs)
        \<and> (n_opens pre = N \<longrightarrow> attempt_ok env pre cs)) \<Longrightarrow>
     (\<forall>e. r \<noteq> Inl e) \<Longrightarrow>
     (\<forall>t. Input ''Retry? [Y/n]: '' (Some t) \<in> set (events_since w w')
            \<longrightarrow> py_lower (py_strip t) \<noteq> ''n'') \<Longrightarrow>
     (\<exists>c cu. r = Inr (Some c, Some cu) \<and> conn s' = Some c \<and> cursor s' = Some cu)
     \<and> n_opens (trace w') = Suc N"
proof (induction a s w rule: connect_loop_rounds [where env = env and k = k and acd = acd and ru = ru])
  case (stop a s w)
  then show ?case by simp
next
  case (round a s w)
  obtain f s1 w1 where lb: "loop_body env (Suc a) acd ru s w = (f, s1, w1)"
    using prod_cases3 by blast
  from loop_body_effect [OF lb] obtain evs1 where
    e1: "trace w1 = trace w @ evs1" "n_opens evs1 = 1"
        "f = Break \<longrightarrow> (\<exists>t. Input ''Retry? [Y/n]: '' (Some t) \<in> set evs1
                                  \<and> py_lower (py_strip t) = ''n'')"
    by blast
  note unfold = connect_loop_round [OF round(1) lb]
  have ext: "\<exists>evs. trace w' = trace w1 @ evs"
  proof (cases f)
    case Continue
    with round(3) unfold have "connect_loop env (Suc a) k acd ru s1 w1 = (r, s', w')" by simp
    then show ?thesis by (rule connect_loop_extends)
  qed (use round(3) unfold in \<open>auto simp: exhausted_def\<close>)
  then obtain evs2 where e2: "trace w' = trace w1 @ evs2" by blast
  obtain x sa wa where tc: "try_connect env (Suc a) s w = (x, sa, wa)"
    using prod_cases3 by blast
  let ?pre = "trace w @ [Log DEBUG (debug_msg (Suc a) s)]"
  let ?cs = "conn_str s"
  from try_connect_outcome [OF tc] obtain evs0 where
    t0: "trace wa = ?pre @ DrvConnect ?cs # evs0"
    and ok_iff: "(\<exists>v. x = Inr v) \<longleftrightarrow> attempt_ok env ?pre ?cs"
    by auto
  have "\<exists>evs. trace w1 = trace wa @ evs"
  proof (cases x)
    case (Inr v)
    with lb tc show ?thesis by (simp add: loop_body_def)
  next
    case (Inl e)
    with lb tc have "retry_prompts env acd ru sa (log_failure (Suc a) e wa) = (f, s1, w1)"
      by (simp add: loop_body_def)
    from retry_prompts_effect [OF this] show ?thesis by auto
  qed
  with t0 e2 obtain post where here: "trace w' = ?pre @ DrvConnect ?cs # post" by auto
  have np: "n_opens ?pre = n_opens (trace w)" by simp
  from round(6) here have att:
    "(n_opens ?pre < N \<longrightarrow> \<not> attempt_ok env ?pre ?cs)
     \<and> (n_opens ?pre = N \<longrightarrow> attempt_ok env ?pre ?cs)"
    by (elim allE [of _ ?pre] allE [of _ ?cs] allE [of _ post]) simp
  show ?case
  proof (cases "n_opens (trace w) = N")
    case True
    with att np ok_iff obtain v where x: "x = Inr v" by auto
    with lb tc have f: "f = Return v" "s1 = sa" "w1 = wa" by (simp_all add: loop_body_def)
    from try_connect_success [OF tc [unfolded x]] f round(3) unfold e1 True show ?thesis by auto
  next
    case False
    with round(4) have lt: "n_opens (trace w) < N" by simp
    with att np ok_iff obtain e where x: "x = Inl e" by (cases x) auto
    with lb tc have rp: "retry_prompts env acd ru sa (log_failure (Suc a) e wa) = (f, s1, w1)"
      by (simp add: loop_body_def)
    show ?thesis
    proof (cases f)
      case (Return v)
      with rp retry_prompts_no_return [of env acd ru sa "log_failure (Suc a) e wa" v s1 w1]
      show ?thesis by simp
    next
      case (Raise v)
      with round(3,7) unfold show ?thesis by auto
    next
      case Break
      with round(3) unfold have "trace w' = trace w1 @
        [Print ''Unable to connect after multiple attempts.'',
         Log ERROR ''Exhausted connection attempts without success.'']"
        by (auto simp: exhausted_def)
      with e1 have "events_since w w' = evs1 @
        [Print ''Unable to connect after multiple attempts.'',
         Log ERROR ''Exhausted connection attempts without success.'']"
        by simp
      with e1(3) Break round(8) show ?thesis by auto
    next
      case Continue
      with round(3) unfold have nx: "connect_loop env (Suc a) k acd ru s1 w1 = (r, s', w')"
        by simp
      from e1 e2 have split: "events_since w w' = evs1 @ evs2" "events_since w1 w' = evs2"
        by simp_all
      with round(8) have noN: "\<forall>t. Input ''Retry? [Y/n]: '' (Some t) \<in> set (events_since w1 w')
            \<longrightarrow> py_lower (py_strip t) \<noteq> ''n''"
        by simp
      from e1 lt have b1: "n_opens (trace w1) \<le> N" by simp
      from e1 lt round(5) have b2: "int (Suc a + (N - n_opens (trace w1))) < k"
        by simp
      from e1 have longer: "length (trace w) \<le> length (trace w1)" by simp
      have att1:
        "\<forall>pre cs post. trace w' = pre @ DrvConnect cs # post \<and> length (trace w1) \<le> length pre \<longrightarrow>
          (n_opens pre < N \<longrightarrow> \<not> attempt_ok env pre cs)
          \<and> (n_opens pre = N \<longrightarrow> attempt_ok env pre cs)"
      proof (intro allI impI)
        fix pre cs post
        assume "trace w' = pre @ DrvConnect cs # post \<and> length (trace w1) \<le> length pre"
        with longer have "trace w' = pre @ DrvConnect cs # post \<and> length (trace w) \<le> length pre"
          by simp
        with round(6) show "(n_opens pre < N \<longrightarrow> \<not> attempt_ok env pre cs)
          \<and> (n_opens pre = N \<longrightarrow> attempt_ok env pre cs)"
          by blast
      qed
      from round(2) [OF lb [unfolded Continue] nx b1 b2 att1 round(7) noN] show ?thesis .
    qed
  qed
qed

text \<open>
  C2, as the code has it. Let \<open>1 \<le> j \<le> k\<close> and take a call of \<open>connect\<close> with
  \<open>max_attempts = k\<close> in which the driver first succeeds on attempt \<open>j\<close>: of the
  attempts the call makes, with the connection strings it passes, those before
  the \<open>j\<close>-th fail and the \<open>j\<close>-th succeeds. (An attempt of this call is a
  \<open>pyodbc.connect\<close> recorded after the call began; it is the \<open>j\<close>-th when
  \<open>j - 1\<close> such calls precede it.) Let the user answer every prompt, never with \<open>n\<close>
  to the retry question. Then \<open>connect\<close> returns the connection and the cursor, both
  are stored in the connector, and the call has made exactly \<open>j\<close> attempts, however
  many remain.
\<close>

theorem connect_stops_at_first_success:
  assumes "1 \<le> j" and "int j \<le> k"
    and "connect env k acd ru s w = (r, s', w')"
    and "\<forall>(pre, cs) \<in> set (attempts_of (trace w')). length (trace w) \<le> length pre \<longrightarrow>
           (n_opens pre < n_opens (trace w) + (j - 1) \<longrightarrow> \<not> attempt_ok env pre cs)
           \<and> (n_opens pre = n_opens (trace w) + (j - 1) \<longrightarrow> attempt_ok env pre cs)"
    and "\<forall>e. r \<noteq> Inl e"
    and "\<forall>t. Input ''Retry? [Y/n]: '' (Some t) \<in> set (events_since w w')
            \<longrightarrow> py_lower (py_strip t) \<noteq> ''n''"
  shows "(\<exists>c cu. r = Inr (Some c, Some cu) \<and> conn s' = Some c \<and> cursor s' = Some cu)
     \<and> n_opens (events_since w w') = j"
proof -
  let ?N = "n_opens (trace w) + (j - 1)"
  from assms(3) have cl: "connect_loop env 0 k acd ru s w = (r, s', w')"
    by (simp add: connect_def)
  from connect_loop_extends [OF cl] obtain evs where evs: "trace w' = trace w @ evs" by blast
  have rounds: "int (0 + (?N - n_opens (trace w))) < k"
    using assms(1,2) by simp
  have att: "\<forall>pre cs post. trace w' = pre @ DrvConnect cs # post \<and> length (trace w) \<le> length pre \<longrightarrow>
        (n_opens pre < ?N \<longrightarrow> \<not> attempt_ok env pre cs)
        \<and> (n_opens pre = ?N \<longrightarrow> attempt_ok env pre cs)"
  proof (intro allI impI)
    fix pre cs post
    assume a: "trace w' = pre @ DrvConnect cs # post \<and> length (trace w) \<le> length pre"
    then have "(pre, cs) \<in> set (attempts_of (trace w'))"
      by (auto simp: attempts_of_iff)
    with assms(4) a show "(n_opens pre < ?N \<longrightarrow> \<not> attempt_ok env pre cs)
        \<and> (n_opens pre = ?N \<longrightarrow> attempt_ok env pre cs)"
      by blast
  qed
  from connect_loop_first_success [OF cl _ rounds att assms(5,6)]
  have res: "(\<exists>c cu. r = Inr (Some c, Some cu) \<and> conn s' = Some c \<and> cursor s' = Some cu)"
    and cnt: "n_opens (trace w') = Suc ?N"
    by simp_all
  from cnt evs assms(1) have "n_opens (events_since w w') = j" by simp
  with res show ?thesis by simp
qed

theorem connect_stops_at_first_success_witness:
  "connect checking_env 3 False False fresh forgetful =
     (Inr (Some 5, Some 7), fresh\<lparr>password := ''secret'', conn := Some 5, cursor := Some 7\<rparr>,
      \<lparr>stdin = [],
       trace = [
         Log DEBUG (''Attempting connection (attempt 1) to DSN='' @ [CHR 39] @ ''sales''
                      @ [CHR 39] @ '' as user='' @ [CHR 39] @ ''ann'' @ [CHR 39]),
         DrvConnect ''DSN=sales;UID=ann;PWD=pw'',
         Log ERROR ''ODBC error on attempt 1: login failed'',
         Print (CHR 10 # ''Connection failed.''),
         Input ''Retry? [Y/n]: '' (Some ''y''),
         GetPass ''Enter your database password: '' (Some ''secret''),
         Log DEBUG (''Attempting connection (attempt 2) to DSN='' @ [CHR 39] @ ''sales''
                      @ [CHR 39] @ '' as user='' @ [CHR 39] @ ''ann'' @ [CHR 39]),
         DrvConnect ''DSN=sales;UID=ann;PWD=secret'',
         ConnCursor 5,
         Log INFO (''Connected to DSN '' @ [CHR 39] @ ''sales'' @ [CHR 39]
                     @ '' successfully on attempt 2.'')]\<rparr>)
   \<and> n_opens (events_since forgetful
                (snd (snd (connect checking_env 3 False False fresh forgetful)))) = 2"
  (is "connect checking_env 3 False False fresh forgetful = (?r, ?s, ?w) \<and> ?count")
proof -
  have run: "connect checking_env 3 False False fresh forgetful = (?r, ?s, ?w)"
    by code_simp
  have h1: "(1::nat) \<le> 2" by simp
  have h2: "int 2 \<le> 3" by simp
  have h4: "\<forall>(pre, cs) \<in> set (attempts_of (trace ?w)).
              length (trace forgetful) \<le> length pre \<longrightarrow>
                (n_opens pre < n_opens (trace forgetful) + (2 - 1)
                   \<longrightarrow> \<not> attempt_ok checking_env pre cs)
                \<and> (n_opens pre = n_opens (trace forgetful) + (2 - 1)
                   \<longrightarrow> attempt_ok checking_env pre cs)"
    by code_simp
  have h5: "\<forall>e. ?r \<noteq> Inl e" by simp
  have a1: "py_lower (py_strip ''y'') \<noteq> ''n''" by code_simp
  have h6: "\<forall>t. Input ''Retry? [Y/n]: '' (Some t) \<in> set (events_since forgetful ?w)
            \<longrightarrow> py_lower (py_strip t) \<noteq> ''n''"
    using a1 by (auto simp: events_since_def forgetful_def)
  from connect_stops_at_first_success [OF h1 h2 run h4 h5 h6] run show ?thesis by simp
qed

text \<open>
  The claim as written fails when the user declines to retry before attempt \<open>j\<close> is
  reached. The driver below times out on the first connection and serves from the
  second on: with three attempts allowed, a user who accepts the retry is connected
  on attempt 2, and a user who answers \<open>n\<close> after the first failure gets
  \<open>(None, None)\<close> after a single attempt.
\<close>

theorem connect_stops_at_first_success_counterexample:
  "fst (connect flaky_env 3 False False fresh one_retry) = Inr (Some 5, Some 7)
   \<and> n_opens (trace (snd (snd (connect flaky_env 3 False False fresh one_retry)))) = 2
   \<and> connect flaky_env 3 False False fresh quitter =
       (Inr (None, None), fresh,
        \<lparr>stdin = [],
         trace = [
           Log DEBUG (''Attempting connection (attempt 1) to DSN='' @ [CHR 39] @ ''sales''
                        @ [CHR 39] @ '' as user='' @ [CHR 39] @ ''ann'' @ [CHR 39]),
           DrvConnect ''DSN=sales;UID=ann;PWD=pw'',
           Log ERROR ''Unexpected error on attempt 1: timeout'',
           Print (CHR 10 # ''Connection failed.''),
           Input ''Retry? [Y/n]: '' (Some ''n''),
           Print ''Unable to connect after multiple attempts.'',
           Log ERROR ''Exhausted connection attempts without success.'']\<rparr>)"
  by code_simp

subsection \<open>The pair of references\<close>

lemma init_unconnected:
  "init env d u p w = (Inr s0, w0) \<Longrightarrow> conn s0 = None \<and> cursor s0 = None"
  by (auto simp: init_def split: prod.splits sum.splits)

lemma try_connect_refs:
  assumes "try_connect env n s w = (r, s1, w1)"
  shows "cursor_has_conn s \<Longrightarrow> cursor_has_conn s1"
    and "(\<And>tr c. \<exists>cu. conn_cursor env tr c = Inr cu) \<Longrightarrow> paired s \<Longrightarrow> paired s1"
proof -
  show "cursor_has_conn s \<Longrightarrow> cursor_has_conn s1"
    using assms
    by (auto simp: try_connect_def cursor_has_conn_def Let_def split: sum.splits)
next
  assume c: "\<And>tr c. \<exists>cu. conn_cursor env tr c = Inr cu" and p: "paired s"
  let ?m = "debug_msg n s"
  show "paired s1"
  proof (cases "drv_connect env (trace w @ [Log DEBUG ?m]) (conn_str s)")
    case (Inl e)
    with assms p show ?thesis by (simp add: try_connect_def Let_def)
  next
    case (Inr c0)
    from c [of "trace w @ [Log DEBUG ?m, DrvConnect (conn_str s)]" c0]
    obtain cu where "conn_cursor env (trace w @ [Log DEBUG ?m, DrvConnect (conn_str s)]) c0 = Inr cu"
      by blast
    with assms Inr show ?thesis by (auto simp: try_connect_def Let_def paired_def)
  qed
qed

lemma loop_body_keeps:
  assumes "loop_body env n acd ru s w = (f, s1, w1)"
  shows "cursor_has_conn s \<Longrightarrow> cursor_has_conn s1"
    and "(\<And>tr c. \<exists>cu. conn_cursor env tr c = Inr cu) \<Longrightarrow> paired s \<Longrightarrow> paired s1"
proof -
  obtain r sa wa where tc: "try_connect env n s w = (r, sa, wa)"
    using prod_cases3 by blast
  have same: "conn s1 = conn sa \<and> cursor s1 = cursor sa"
  proof (cases r)
    case (Inr v)
    with assms tc show ?thesis by (simp add: loop_body_def)
  next
    case (Inl e)
    with assms tc have "retry_prompts env acd ru sa (log_failure n e wa) = (f, s1, w1)"
      by (simp add: loop_body_def)
    from retry_prompts_effect [OF this] show ?thesis by auto
  qed
  show "cursor_has_conn s \<Longrightarrow> cursor_has_conn s1"
    using try_connect_refs(1) [OF tc] same by (simp add: cursor_has_conn_def)
  show "(\<And>tr c. \<exists>cu. conn_cursor env tr c = Inr cu) \<Longrightarrow> paired s \<Longrightarrow> paired s1"
    using try_connect_refs(2) [OF tc] same by (simp add: paired_def)
qed

lemma connect_loop_keeps:
  assumes step: "\<And>n s w f s1 w1. I s \<Longrightarrow> loop_body env n acd ru s w = (f, s1, w1) \<Longrightarrow> I s1"
  shows "I s \<Longrightarrow> connect_loop env a k acd ru s w = (r, s', w') \<Longrightarrow> I s'"
proof (induction a s w rule: connect_loop_rounds [where env = env and k = k and acd = acd and ru = ru])
  case (stop a s w)
  then show ?case by (auto simp: connect_loop_stop exhausted_def)
next
  case (round a s w)
  obtain f s1 w1 where lb: "loop_body env (Suc a) acd ru s w = (f, s1, w1)"
    using prod_cases3 by blast
  from step [OF round(3) lb] have i1: "I s1" .
  note unfold = connect_loop_round [OF round(1) lb]
  show ?case
  proof (cases f)
    case Continue
    with round(4) unfold have "connect_loop env (Suc a) k acd ru s1 w1 = (r, s', w')" by simp
    from round(2) [OF lb [unfolded Continue] i1 this] show ?thesis .
  qed (use round(4) unfold i1 in \<open>auto simp: exhausted_def\<close>)
qed

text \<open>
  C3, as the code has it. A connector that has just been constructed holds neither
  reference. \<open>close\<close> changes neither. \<open>connect\<close> keeps "a cursor only with a
  connection" for every driver, and keeps "both or neither" for every driver whose
  \<open>cursor()\<close> does not raise.
\<close>

theorem references_kept:
  "(init env d u p w = (Inr s0, w0) \<longrightarrow> conn s0 = None \<and> cursor s0 = None)
   \<and> (connect env k acd ru s w = (r, s', w') \<and> cursor_has_conn s \<longrightarrow> cursor_has_conn s')
   \<and> (connect env k acd ru s w = (r, s', w') \<and> (\<forall>tr c. \<exists>cu. conn_cursor env tr c = Inr cu)
        \<and> paired s \<longrightarrow> paired s')
   \<and> (close env s w = (r2, s2, w2) \<longrightarrow> s2 = s)"
proof (intro conjI impI)
  assume "init env d u p w = (Inr s0, w0)"
  then show "conn s0 = None" "cursor s0 = None" by (simp_all add: init_unconnected)
next
  assume a: "connect env k acd ru s w = (r, s', w') \<and> cursor_has_conn s"
  have "cursor_has_conn s'"
  proof (rule connect_loop_keeps [where I = cursor_has_conn])
    show "cursor_has_conn s" using a by simp
    show "connect_loop env 0 k acd ru s w = (r, s', w')" using a by (simp add: connect_def)
  qed (rule loop_body_keeps(1))
  then show "cursor_has_conn s'" .
next
  assume a: "connect env k acd ru s w = (r, s', w') \<and>
             (\<forall>tr c. \<exists>cu. conn_cursor env tr c = Inr cu) \<and> paired s"
  then have c: "\<And>tr c. \<exists>cu. conn_cursor env tr c = Inr cu" by blast
  show "paired s'"
  proof (rule connect_loop_keeps [where I = paired])
    show "paired s" using a by simp
    show "connect_loop env 0 k acd ru s w = (r, s', w')" using a by (simp add: connect_def)
  qed (rule loop_body_keeps(2) [OF _ c])
next
  assume "close env s w = (r2, s2, w2)"
  with close_result [of env s w] show "s2 = s" by simp
qed

theorem references_kept_witness:
  "fst (init serving_env None None None newcomer) = Inr fresh
   \<and> conn fresh = None \<and> cursor fresh = None
   \<and> paired (fst (snd (connect serving_env 3 True False fresh silent)))
   \<and> cursor_has_conn (fst (snd (connect cursorless_env 1 True False fresh quitter)))
   \<and> fst (snd (close serving_env linked silent)) = linked"
proof -
  have i: "fst (init serving_env None None None newcomer) = Inr fresh" by code_simp
  then have i': "init serving_env None None None newcomer =
                   (Inr fresh, snd (init serving_env None None None newcomer))"
    by (simp add: prod_eq_iff)
  from references_kept [where env = serving_env and d = None and u = None and p = None
                          and w = newcomer and ?s0.0 = fresh
                          and ?w0.0 = "snd (init serving_env None None None newcomer)"] i'
  have a: "conn fresh = None \<and> cursor fresh = None" by blast
  have c: "connect serving_env 3 True False fresh silent =
             (fst (connect serving_env 3 True False fresh silent),
              fst (snd (connect serving_env 3 True False fresh silent)),
              snd (snd (connect serving_env 3 True False fresh silent)))"
    by simp
  have pf: "paired fresh" by code_simp
  have nc: "\<forall>tr c. \<exists>cu. conn_cursor serving_env tr c = Inr cu"
    by (simp add: serving_env_def)
  from references_kept [where env = serving_env and k = 3 and acd = True and ru = False
                          and s = fresh and w = silent
                          and s' = "fst (snd (connect serving_env 3 True False fresh silent))"] c pf nc
  have b: "paired (fst (snd (connect serving_env 3 True False fresh silent)))" by blast
  have c2: "connect cursorless_env 1 True False fresh quitter =
             (fst (connect cursorless_env 1 True False fresh quitter),
              fst (snd (connect cursorless_env 1 True False fresh quitter)),
              snd (snd (connect cursorless_env 1 True False fresh quitter)))"
    by simp
  have cf: "cursor_has_conn fresh" by code_simp
  from references_kept [where env = cursorless_env and k = 1 and acd = True and ru = False
                          and s = fresh and w = quitter
                          and s' = "fst (snd (connect cursorless_env 1 True False fresh quitter))"] c2 cf
  have d: "cursor_has_conn (fst (snd (connect cursorless_env 1 True False fresh quitter)))"
    by blast
  have c3: "close serving_env linked silent =
             (fst (close serving_env linked silent),
              fst (snd (close serving_env linked silent)),
              snd (snd (close serving_env linked silent)))"
    by simp
  from references_kept [where env = serving_env and s = linked and w = silent
                          and ?s2.0 = "fst (snd (close serving_env linked silent))"] c3
  have e: "fst (snd (close serving_env linked silent)) = linked" by blast
  from i a b d e show ?thesis by simp
qed

text \<open>
  The claim as written fails for a driver that opens the connection and then raises in
  \<open>cursor()\<close>: after \<open>connect\<close> the connector holds a connection and no cursor.
\<close>

theorem references_kept_counterexample:
  "paired fresh
   \<and> conn (fst (snd (connect cursorless_env 1 True False fresh quitter))) = Some 5
   \<and> cursor (fst (snd (connect cursorless_env 1 True False fresh quitter))) = None
   \<and> \<not> paired (fst (snd (connect cursorless_env 1 True False fresh quitter)))"
  by code_simp

subsection \<open>After the last attempt\<close>

text \<open>
  C4. After the final attempt has failed, nothing is left to retry, and the claim has
  \<open>connect\<close> leave the loop without another prompt. The loop body has no test for
  the last attempt: the prompts of lines 102 to 118 follow every failed attempt alike,
  and the bound is looked at only when the \<open>while\<close> condition is evaluated again.
  With \<open>max_attempts = 1\<close> and a driver that refuses the connection, \<open>connect\<close>
  asks whether to retry, whether to change the DSN and for a new password, stores the
  password typed, and then reports that the attempts are exhausted without having
  tried it.
\<close>

theorem connect_prompts_after_final_attempt:
  "connect refusing_env 1 True False fresh keen_user =
     (Inr (None, None), fresh\<lparr>password := ''pw2''\<rparr>,
      \<lparr>stdin = [],
       trace = [
         Log DEBUG (''Attempting connection (attempt 1) to DSN='' @ [CHR 39] @ ''sales''
                      @ [CHR 39] @ '' as user='' @ [CHR 39] @ ''ann'' @ [CHR 39]),
         DrvConnect ''DSN=sales;UID=ann;PWD=pw'',
         Log ERROR ''ODBC error on attempt 1: login failed'',
         Print (CHR 10 # ''Connection failed.''),
         Input ''Retry? [Y/n]: '' (Some ''y''),
         Input ''Change DSN as well? [y/N]: '' (Some ''n''),
         GetPass ''Enter your database password: '' (Some ''pw2''),
         Print ''Unable to connect after multiple attempts.'',
         Log ERROR ''Exhausted connection attempts without success.'']\<rparr>)"
  by code_simp

subsection \<open>A failed change of DSN\<close>

lemma connect_loop_first_events:
  assumes "int a < k" and "connect_loop env a k acd ru s w = (r, s', w')"
  shows "\<exists>m evs. trace w' = trace w @ Log DEBUG m # DrvConnect (conn_str s) # evs"
proof -
  obtain f s1 w1 where lb: "loop_body env (Suc a) acd ru s w = (f, s1, w1)"
    using prod_cases3 by blast
  obtain x sa wa where tc: "try_connect env (Suc a) s w = (x, sa, wa)"
    using prod_cases3 by blast
  then have ta: "\<exists>m evs. trace wa = trace w @ Log DEBUG m # DrvConnect (conn_str s) # evs"
    by (auto simp: try_connect_def Let_def split: sum.splits)
  have t1: "\<exists>evs. trace w1 = trace wa @ evs"
  proof (cases x)
    case (Inr v)
    with lb tc show ?thesis by (simp add: loop_body_def)
  next
    case (Inl e)
    with lb tc have "retry_prompts env acd ru sa (log_failure (Suc a) e wa) = (f, s1, w1)"
      by (simp add: loop_body_def)
    from retry_prompts_effect [OF this] show ?thesis by auto
  qed
  have t2: "\<exists>evs. trace w' = trace w1 @ evs"
  proof (cases f)
    case Continue
    with assms connect_loop_round [OF assms(1) lb]
    have "connect_loop env (Suc a) k acd ru s1 w1 = (r, s', w')" by simp
    then show ?thesis by (rule connect_loop_extends)
  qed (use assms connect_loop_round [OF assms(1) lb] in \<open>auto simp: exhausted_def\<close>)
  from ta t1 t2 show ?thesis by auto
qed

text \<open>
  C7. In a round of \<open>connect\<close> with \<open>allow_change_dsn\<close> set, let the attempt fail,
  the user agree to retry and ask for another DSN, and \<open>_select_dsn\<close> raise any
  exception \<open>e\<close>. Then \<open>e\<close> is printed and logged and goes no further: \<open>connect\<close>
  carries on with the credentials prompt and, unless that prompt meets the end of the
  input, with the next round. The DSN is the one there was before, and the next
  attempt, if one remains, hands the driver a connection string with that DSN.
\<close>

theorem change_dsn_failure_contained:
  assumes "int a < k"
    and "try_connect env (Suc a) s w = (Inl e0, s1, w1)"
    and "py_input ''Retry? [Y/n]: ''
           (py_print (CHR 10 # ''Connection failed.'') (log_failure (Suc a) e0 w1)) =
         (Inr retry, w2)"
    and "py_lower (py_strip retry) \<noteq> ''n''"
    and "py_input ''Change DSN as well? [y/N]: '' w2 = (Inr answer, w3)"
    and "py_lower (py_strip answer) = ''y''"
    and "select_dsn env w3 = (Inl e, w4)"
    and "prompt_credentials ru s1
           (logger ERROR (''Unable to change DSN after failure: '' @ str_exn e)
              (py_print (''Unable to change DSN: '' @ str_exn e) w4)) = (rc, s6, w6)"
  shows "connect_loop env a k True ru s w =
           (case rc of
              Inl e' \<Rightarrow> (Inl e', s6, w6)
            | Inr u \<Rightarrow> connect_loop env (Suc a) k True ru s6 w6)
     \<and> dsn s6 = dsn s
     \<and> (\<exists>evs. trace w6 = trace w4 @ Print (''Unable to change DSN: '' @ str_exn e)
                  # Log ERROR (''Unable to change DSN after failure: '' @ str_exn e) # evs)
     \<and> (\<forall>u r' s' w'. rc = Inr u \<and> int (Suc a) < k \<and>
            connect_loop env a k True ru s w = (r', s', w') \<longrightarrow>
            (\<exists>m evs. trace w' = trace w6 @ Log DEBUG m
               # DrvConnect (''DSN='' @ dsn s @ '';UID='' @ username s6 @ '';PWD='' @ password s6)
               # evs))"
proof -
  let ?w5 = "logger ERROR (''Unable to change DSN after failure: '' @ str_exn e)
              (py_print (''Unable to change DSN: '' @ str_exn e) w4)"
  have cd: "change_dsn env s1 w2 = (Inr (), s1, ?w5)"
    using assms(5,6,7) by (simp add: change_dsn_def)
  have rp: "retry_prompts env True ru s1 (log_failure (Suc a) e0 w1) =
              (case rc of Inl e' \<Rightarrow> Raise e' | Inr u \<Rightarrow> Continue, s6, w6)"
    using assms(3,4,8) cd by (simp add: retry_prompts_def split: sum.splits)
  with assms(2) have lb: "loop_body env (Suc a) True ru s w =
              (case rc of Inl e' \<Rightarrow> Raise e' | Inr u \<Rightarrow> Continue, s6, w6)"
    by (simp add: loop_body_def)
  have eq: "connect_loop env a k True ru s w =
           (case rc of
              Inl e' \<Rightarrow> (Inl e', s6, w6)
            | Inr u \<Rightarrow> connect_loop env (Suc a) k True ru s6 w6)"
    using connect_loop_round [OF assms(1) lb] by (simp split: sum.splits)
  from prompt_credentials_effect [OF assms(8)] try_connect_effect(3) [OF assms(2)]
  have d: "dsn s6 = dsn s" and q: "quiet ?w5 w6" by simp_all
  from q have tr: "\<exists>evs. trace w6 = trace w4 @ Print (''Unable to change DSN: '' @ str_exn e)
                  # Log ERROR (''Unable to change DSN after failure: '' @ str_exn e) # evs"
    by (auto simp: quiet_def)
  have nx: "\<exists>m evs. trace w' = trace w6 @ Log DEBUG m
               # DrvConnect (''DSN='' @ dsn s @ '';UID='' @ username s6 @ '';PWD='' @ password s6)
               # evs"
    if "rc = Inr u" "int (Suc a) < k" "connect_loop env a k True ru s w = (r', s', w')"
    for u r' s' w'
  proof -
    from that eq have "connect_loop env (Suc a) k True ru s6 w6 = (r', s', w')" by simp
    from connect_loop_first_events [OF that(2) this] d show ?thesis
      by (simp add: conn_str_def)
  qed
  from eq d tr nx show ?thesis by blast
qed

theorem change_dsn_failure_contained_witness:
  "select_dsn bare_env switcher_asked =
     (Inl (Exn RuntimeError ''No DSNs found on this system.''), switcher_refused)
   \<and> connect_loop bare_env 0 2 True False fresh switcher =
       connect_loop bare_env (Suc 0) 2 True False (fresh\<lparr>password := ''pw2''\<rparr>)
         switcher_reprompted
   \<and> dsn (fresh\<lparr>password := ''pw2''\<rparr>) = dsn fresh
   \<and> (\<exists>evs. trace switcher_reprompted =
               trace switcher_refused
                 @ Print ''Unable to change DSN: No DSNs found on this system.''
                 # Log ERROR ''Unable to change DSN after failure: No DSNs found on this system.''
                 # evs)"
proof -
  let ?refusal = "Exn PyodbcError ''login failed''"
  let ?nosrc = "Exn RuntimeError ''No DSNs found on this system.''"
  have h1: "int 0 < 2" by simp
  have h2: "try_connect bare_env (Suc 0) fresh switcher = (Inl ?refusal, fresh, switcher_tried)"
    by code_simp
  have h3: "py_input ''Retry? [Y/n]: ''
              (py_print (CHR 10 # ''Connection failed.'') (log_failure (Suc 0) ?refusal switcher_tried)) =
            (Inr ''y'', switcher_retried)"
    by code_simp
  have h4: "py_lower (py_strip ''y'') \<noteq> ''n''" by code_simp
  have h5: "py_input ''Change DSN as well? [y/N]: '' switcher_retried = (Inr ''Y'', switcher_asked)"
    by code_simp
  have h6: "py_lower (py_strip ''Y'') = ''y''" by code_simp
  have h7: "select_dsn bare_env switcher_asked = (Inl ?nosrc, switcher_refused)"
    by code_simp
  have h8: "prompt_credentials False fresh
              (logger ERROR (''Unable to change DSN after failure: '' @ str_exn ?nosrc)
                 (py_print (''Unable to change DSN: '' @ str_exn ?nosrc) switcher_refused)) =
            (Inr (), fresh\<lparr>password := ''pw2''\<rparr>, switcher_reprompted)"
    by code_simp
  note k = change_dsn_failure_contained [OF h1 h2 h3 h4 h5 h6 h7 h8]
  from k have a: "connect_loop bare_env 0 2 True False fresh switcher =
       connect_loop bare_env (Suc 0) 2 True False (fresh\<lparr>password := ''pw2''\<rparr>)
         switcher_reprompted"
    by simp
  from k have b: "dsn (fresh\<lparr>password := ''pw2''\<rparr>) = dsn fresh"
    by (elim conjE)
  from k have c: "\<exists>evs. trace switcher_reprompted =
               trace switcher_refused
                 @ Print ''Unable to change DSN: No DSNs found on this system.''
                 # Log ERROR ''Unable to change DSN after failure: No DSNs found on this system.''
                 # evs"
    by (elim conjE) simp
  from h7 a b c show ?thesis by (intro conjI)
qed

end
